theory Spec2Isabelle
  imports Complex_Main "HOL-Library.AList" "HOL-Library.Word"
begin

section \<open>Data model of the remote view\<close>

text \<open>
  Go byte slices and Go strings are both sequences of bytes; \<open>string(msg.Data)\<close> is the
  identity on them. A nil slice is \<open>None\<close>, a non-nil one (also the empty one) is \<open>Some\<close>.
\<close>

type_synonym bytes = string

text \<open>A Go \<open>error\<close> value, read through \<open>err.Error()\<close>.\<close>

datatype error = GoError (Error: string)

text \<open>The ways in which the code aborts the process.\<close>

datatype panic =
    PanicError error
  | PanicInt int
  | NilDereference
  | CloseOfClosedChannel

text \<open>
  A Go \<open>int\<close> is a 64-bit machine integer (as on the 64-bit platforms): its arithmetic
  wraps around, and \<open>sint\<close> reads its value.
\<close>

type_synonym go_int = "64 word"

text \<open>
  \<open>image.Image\<close> is an interface of the standard library; the pipeline only reads its
  bounds. \<open>Dx\<close> and \<open>Dy\<close> are the accessors of \<open>image.Rectangle\<close>, \<open>r.Max.X - r.Min.X\<close> and
  \<open>r.Max.Y - r.Min.Y\<close>; the subtraction wraps around.
\<close>

record rectangle =
  minX :: go_int
  minY :: go_int
  maxX :: go_int
  maxY :: go_int

definition Dx :: "rectangle \<Rightarrow> go_int" where
  "Dx r = maxX r - minX r"

definition Dy :: "rectangle \<Rightarrow> go_int" where
  "Dy r = maxY r - minY r"

record image =
  Bounds :: rectangle
  Pixels :: bytes

text \<open>\<open>media.Sample\<close>: the encoded data and its duration, in milliseconds.\<close>

record media_sample =
  SampleData :: bytes
  Duration :: nat

text \<open>
  \<open>remoteClient\<close> holds two pointers; a pointer is modelled by the address it holds.
\<close>

record remoteClient =
  dataChannel :: nat
  videoTrack :: nat

text \<open>
  Everything the code does to the outside world is recorded, in order, as a list of
  effects: calls into the encoder, the transport, the logger and the installed callbacks,
  and the operations on the View's own channels.
\<close>

datatype effect =
    FactoryNew go_int go_int
  | EncoderEncode image "error + bytes option"
  | OutputFramesSend bytes
  | OutputFramesClose
  | WriteSample nat media_sample
  | DataChannelSendText nat string
  | DataChannelSend nat bytes
  | CallOnDataHandler nat bytes
  | CallOnClickHandler nat go_int go_int
  | LoggerError error
  | LoggerDebugw string error
  | LoggerDebugwWroteSample nat
  | ReadyChClose
  | GoProcessInputFrames
  | GoProcessOutputFrames

text \<open>How a loop of the pipeline stands after the items it was given.\<close>

datatype outcome = Blocked | Returned | Panicked panic

datatype chan_state = Open | Closed

text \<open>
  \<open>EncoderFactory.New(width, height, logger)\<close> returns an encoder or an error; the
  encoder is a value of type \<open>'e\<close>, and its \<open>Encode\<close> method is passed to the functions
  that call it. The factory is an interface value, so it may be nil.
\<close>

record 'e remoteViewConfig =
  StreamNumber :: int
  StreamName :: string
  Debug :: bool
  EncoderFactory :: "(go_int \<Rightarrow> go_int \<Rightarrow> error + 'e) option"

text \<open>
  \<open>basicRemoteView\<close>. The mutex, the wait group and the logger carry no data of their
  own. \<open>readyOnce\<close> is the flag of the \<open>sync.Once\<close>, \<open>shutdownCtx\<close> tells whether the
  context is cancelled. Go iterates over a map in an unspecified order: the map from peer
  connections to clients is an association list with one entry per key, and no theorem
  below depends on where an entry stands in it. The two frame channels are unbuffered and
  are modelled by the lists of the values that pass through them. A value of this type
  is the View as it stands at one moment; the other goroutines change it between the
  moments at which a loop reads it.
\<close>

record ('e, 'r) basicRemoteView =
  config :: "'e remoteViewConfig"
  readyOnce :: bool
  readyCh :: chan_state
  peerToRemoteClient :: "(nat \<times> remoteClient) list"
  encoder :: "'e option"
  onDataHandler :: "nat option"
  onClickHandler :: "nat option"
  commandRegistry :: 'r
  shutdownCtx :: bool

section \<open>The connection registry\<close>

definition addRemoteClient ::
  "('e, 'r) basicRemoteView \<Rightarrow> nat \<Rightarrow> remoteClient \<Rightarrow> ('e, 'r) basicRemoteView" where
  "addRemoteClient brv peerConnection rc =
     brv\<lparr>peerToRemoteClient := AList.update peerConnection rc (peerToRemoteClient brv)\<rparr>"

definition removeRemoteClient ::
  "('e, 'r) basicRemoteView \<Rightarrow> nat \<Rightarrow> ('e, 'r) basicRemoteView" where
  "removeRemoteClient brv peerConnection =
     brv\<lparr>peerToRemoteClient := AList.delete peerConnection (peerToRemoteClient brv)\<rparr>"

definition getRemoteClients :: "('e, 'r) basicRemoteView \<Rightarrow> remoteClient list" where
  "getRemoteClients brv = map snd (peerToRemoteClient brv)"

section \<open>The encode loop\<close>

text \<open>
  \<open>initCodec\<close>: the error it returns (or the panic of calling a nil factory), the View
  after it, and the calls it made. On an error of the factory the encoder field is
  assigned the nil encoder that came with the error.
\<close>

definition initCodec ::
  "('e, 'r) basicRemoteView \<Rightarrow> go_int \<Rightarrow> go_int \<Rightarrow>
     (panic + error option) \<times> ('e, 'r) basicRemoteView \<times> effect list" where
  "initCodec brv width height =
     (case encoder brv of
        Some _ \<Rightarrow> (Inr (Some (GoError ''already initialized codec'')), brv, [])
      | None \<Rightarrow>
          (case EncoderFactory (config brv) of
             None \<Rightarrow> (Inl NilDereference, brv, [])
           | Some new \<Rightarrow>
               (case new width height of
                  Inl err \<Rightarrow> (Inr (Some err), brv\<lparr>encoder := None\<rparr>, [FactoryNew width height])
                | Inr enc \<Rightarrow> (Inr None, brv\<lparr>encoder := Some enc\<rparr>, [FactoryNew width height]))))"

definition emit ::
  "effect list \<Rightarrow> 'a \<times> effect list \<times> outcome \<Rightarrow> 'a \<times> effect list \<times> outcome" where
  "emit pre r = (case r of (brv, t, oc) \<Rightarrow> (brv, pre @ t, oc))"

text \<open>
  The \<open>for\<close> loop of \<open>processInputFrames\<close>, with its local variable \<open>firstFrame\<close>, over the
  values received from \<open>inputFrames\<close>; \<open>None\<close> is a nil image. Both \<open>select\<close> statements
  return when the context is cancelled. At the end of the list the loop waits for the
  next value.
\<close>

fun inputLoop ::
  "('e \<Rightarrow> image \<Rightarrow> (error + bytes option) \<times> 'e) \<Rightarrow> ('e, 'r) basicRemoteView \<Rightarrow> bool \<Rightarrow>
     image option list \<Rightarrow> ('e, 'r) basicRemoteView \<times> effect list \<times> outcome" where
  "inputLoop Encode brv firstFrame [] =
     (brv, [], if shutdownCtx brv then Returned else Blocked)"
| "inputLoop Encode brv firstFrame (frame # rest) =
     (if shutdownCtx brv then (brv, [], Returned)
      else
        (case frame of
           None \<Rightarrow> inputLoop Encode brv firstFrame rest
         | Some img \<Rightarrow>
             (case (if firstFrame then initCodec brv (Dx (Bounds img)) (Dy (Bounds img))
                    else (Inr None, brv, [])) of
                (Inl p, brv1, t1) \<Rightarrow> (brv1, t1, Panicked p)
              | (Inr (Some err), brv1, t1) \<Rightarrow> (brv1, t1 @ [LoggerError err], Returned)
              | (Inr None, brv1, t1) \<Rightarrow>
                  (case encoder brv1 of
                     None \<Rightarrow> (brv1, t1, Panicked NilDereference)
                   | Some enc \<Rightarrow>
                       (case Encode enc img of
                          (Inl err, enc') \<Rightarrow>
                            emit (t1 @ [EncoderEncode img (Inl err), LoggerError err])
                              (inputLoop Encode (brv1\<lparr>encoder := Some enc'\<rparr>) False rest)
                        | (Inr None, enc') \<Rightarrow>
                            emit (t1 @ [EncoderEncode img (Inr None)])
                              (inputLoop Encode (brv1\<lparr>encoder := Some enc'\<rparr>) False rest)
                        | (Inr (Some encodedFrame), enc') \<Rightarrow>
                            emit (t1 @ [EncoderEncode img (Inr (Some encodedFrame)),
                                        OutputFramesSend encodedFrame])
                              (inputLoop Encode (brv1\<lparr>encoder := Some enc'\<rparr>) False rest))))))"

text \<open>
  \<open>processInputFrames\<close>: the loop entered with \<open>firstFrame\<close> set; the deferred function
  closes \<open>outputFrames\<close> when the loop is left.
\<close>

definition processInputFrames ::
  "('e \<Rightarrow> image \<Rightarrow> (error + bytes option) \<times> 'e) \<Rightarrow> ('e, 'r) basicRemoteView \<Rightarrow>
     image option list \<Rightarrow> ('e, 'r) basicRemoteView \<times> effect list \<times> outcome" where
  "processInputFrames Encode brv frames =
     (case inputLoop Encode brv True frames of
        (brv', t, oc) \<Rightarrow> (brv', t @ (if oc = Blocked then [] else [OutputFramesClose]), oc))"

text \<open>The calls of the encoder factory in a trace, with their arguments.\<close>

fun factoryCalls :: "effect list \<Rightarrow> (go_int \<times> go_int) list" where
  "factoryCalls [] = []"
| "factoryCalls (FactoryNew width height # t) = (width, height) # factoryCalls t"
| "factoryCalls (_ # t) = factoryCalls t"

text \<open>The images of a sequence of received values that are not nil.\<close>

fun nonNil :: "'a option list \<Rightarrow> 'a list" where
  "nonNil [] = []"
| "nonNil (None # xs) = nonNil xs"
| "nonNil (Some x # xs) = x # nonNil xs"

text \<open>The values sent on \<open>outputFrames\<close>, and the samples that \<open>Encode\<close> returned non-nil.\<close>

fun outputFramesOf :: "effect list \<Rightarrow> bytes list" where
  "outputFramesOf [] = []"
| "outputFramesOf (OutputFramesSend encodedFrame # t) = encodedFrame # outputFramesOf t"
| "outputFramesOf (_ # t) = outputFramesOf t"

fun samplesReturned :: "effect list \<Rightarrow> bytes list" where
  "samplesReturned [] = []"
| "samplesReturned (EncoderEncode img (Inr (Some encodedFrame)) # t) =
     encodedFrame # samplesReturned t"
| "samplesReturned (_ # t) = samplesReturned t"

text \<open>The images that were passed to \<open>Encode\<close>.\<close>

fun encodedImages :: "effect list \<Rightarrow> image list" where
  "encodedImages [] = []"
| "encodedImages (EncoderEncode img r # t) = img # encodedImages t"
| "encodedImages (_ # t) = encodedImages t"

section \<open>The fan-out loop\<close>

definition mediaSample :: "bytes \<Rightarrow> media_sample" where
  "mediaSample outputFrame = \<lparr>SampleData = outputFrame, Duration = 33\<rparr>"

text \<open>
  The inner loop of \<open>processOutputFrames\<close> over the snapshot of the clients. The
  transport is a state \<open>'w\<close> with its \<open>WriteSample\<close> method, which returns an error or nil.
  An error panics: nothing is logged, and the clients after the failing one are not
  written to.
\<close>

fun fanOut ::
  "('w \<Rightarrow> nat \<Rightarrow> media_sample \<Rightarrow> error option \<times> 'w) \<Rightarrow> 'w \<Rightarrow> remoteClient list \<Rightarrow> bytes \<Rightarrow>
     'w \<times> effect list \<times> panic option" where
  "fanOut writeSample w [] outputFrame = (w, [], None)"
| "fanOut writeSample w (rc # rcs) outputFrame =
     (case writeSample w (videoTrack rc) (mediaSample outputFrame) of
        (Some ivfErr, w') \<Rightarrow>
          (w', [WriteSample (videoTrack rc) (mediaSample outputFrame)], Some (PanicError ivfErr))
      | (None, w') \<Rightarrow>
          (case fanOut writeSample w' rcs outputFrame of
             (w'', t, p) \<Rightarrow> (w'', WriteSample (videoTrack rc) (mediaSample outputFrame) # t, p)))"

text \<open>
  The \<open>range\<close> loop over \<open>outputFrames\<close>, with its counter \<open>framesSent\<close>; \<open>isClosed\<close> tells
  whether the channel is closed after the last value of the list. The loop reads the
  View anew for every sample it receives, the context first and then the snapshot of the
  clients, while the other goroutines stop the View and attach and detach connections:
  \<open>observed k\<close> is the View as the loop finds it when it has received the sample after
  \<open>k\<close> samples sent. The counter is the number of the samples received before, since the
  loop is left when a sample is not sent.
\<close>

fun outputLoop ::
  "('w \<Rightarrow> nat \<Rightarrow> media_sample \<Rightarrow> error option \<times> 'w) \<Rightarrow> (nat \<Rightarrow> ('e, 'r) basicRemoteView) \<Rightarrow>
     'w \<Rightarrow> nat \<Rightarrow> bytes list \<Rightarrow> bool \<Rightarrow> 'w \<times> effect list \<times> outcome" where
  "outputLoop writeSample observed w framesSent [] isClosed =
     (w, [], if isClosed then Returned else Blocked)"
| "outputLoop writeSample observed w framesSent (outputFrame # rest) isClosed =
     (if shutdownCtx (observed framesSent) then (w, [], Returned)
      else
        (case fanOut writeSample w (getRemoteClients (observed framesSent)) outputFrame of
           (w', t, Some p) \<Rightarrow> (w', t, Panicked p)
         | (w', t, None) \<Rightarrow>
             emit (t @ (if Debug (config (observed framesSent))
                        then [LoggerDebugwWroteSample (framesSent + 1)] else []))
               (outputLoop writeSample observed w' (framesSent + 1) rest isClosed)))"

definition processOutputFrames ::
  "('w \<Rightarrow> nat \<Rightarrow> media_sample \<Rightarrow> error option \<times> 'w) \<Rightarrow> (nat \<Rightarrow> ('e, 'r) basicRemoteView) \<Rightarrow>
     'w \<Rightarrow> bytes list \<Rightarrow> bool \<Rightarrow> 'w \<times> effect list \<times> outcome" where
  "processOutputFrames writeSample observed w frames isClosed =
     outputLoop writeSample observed w 0 frames isClosed"

text \<open>
  The two loops as they are started by the first attach: the values that the encode loop
  sends on \<open>outputFrames\<close> are the values that the fan-out loop receives, in that order,
  and the channel is closed once the encode loop is left. \<open>brv\<close> is the View as the
  encode loop finds it while it receives the images of the list, and \<open>observed\<close> gives the
  View as the fan-out loop finds it at each sample, which may be stopped by then, or hold
  other connections. The result is the trace of each loop and the outcome of the fan-out
  loop.
\<close>

definition framePipeline ::
  "('e \<Rightarrow> image \<Rightarrow> (error + bytes option) \<times> 'e) \<Rightarrow>
   ('w \<Rightarrow> nat \<Rightarrow> media_sample \<Rightarrow> error option \<times> 'w) \<Rightarrow> ('e, 'r) basicRemoteView \<Rightarrow>
   (nat \<Rightarrow> ('e, 'r) basicRemoteView) \<Rightarrow> 'w \<Rightarrow> image option list \<Rightarrow>
     effect list \<times> effect list \<times> outcome" where
  "framePipeline Encode writeSample brv observed w frames =
     (case processInputFrames Encode brv frames of
        (brv', tin, oc) \<Rightarrow>
          (tin, snd (processOutputFrames writeSample observed w (outputFramesOf tin)
                       (oc \<noteq> Blocked))))"

text \<open>
  The results that the encoder returns for the images pushed, as the design has it: the
  encoder is made by the factory from the bounds of the first image that is not nil, and
  is given every image that is not nil, in order; if the factory fails there is no
  encoder and no result. The samples among the results are those that are not nil.
\<close>

fun encodeAll ::
  "('e \<Rightarrow> image \<Rightarrow> (error + bytes option) \<times> 'e) \<Rightarrow> 'e \<Rightarrow> image list \<Rightarrow>
     (error + bytes option) list" where
  "encodeAll Encode enc [] = []"
| "encodeAll Encode enc (img # imgs) =
     (case Encode enc img of (r, enc') \<Rightarrow> r # encodeAll Encode enc' imgs)"

definition encoderResults ::
  "(go_int \<Rightarrow> go_int \<Rightarrow> error + 'e) \<Rightarrow> ('e \<Rightarrow> image \<Rightarrow> (error + bytes option) \<times> 'e) \<Rightarrow>
     image option list \<Rightarrow> (error + bytes option) list" where
  "encoderResults new Encode frames =
     (case nonNil frames of
        [] \<Rightarrow> []
      | img # imgs \<Rightarrow>
          (case new (Dx (Bounds img)) (Dy (Bounds img)) of
             Inl err \<Rightarrow> []
           | Inr enc \<Rightarrow> encodeAll Encode enc (img # imgs)))"

fun nonNilSamples :: "(error + bytes option) list \<Rightarrow> bytes list" where
  "nonNilSamples [] = []"
| "nonNilSamples (Inr (Some encodedFrame) # rs) = encodedFrame # nonNilSamples rs"
| "nonNilSamples (_ # rs) = nonNilSamples rs"

text \<open>The samples written to one video track, in order.\<close>

fun writesTo :: "nat \<Rightarrow> effect list \<Rightarrow> media_sample list" where
  "writesTo track [] = []"
| "writesTo track (WriteSample tr s # t) =
     (if tr = track then s # writesTo track t else writesTo track t)"
| "writesTo track (_ # t) = writesTo track t"

section \<open>Construction, attach and the other operations of the View\<close>

text \<open>
  \<open>NewRemoteView\<close>; the command registry that \<open>NewCommandRegistry()\<close> returns is passed
  in.
\<close>

definition NewRemoteView ::
  "'e remoteViewConfig \<Rightarrow> 'r \<Rightarrow> error + ('e, 'r) basicRemoteView" where
  "NewRemoteView cfg reg =
     (case EncoderFactory cfg of
        None \<Rightarrow> Inl (GoError ''no encoder factory set'')
      | Some _ \<Rightarrow>
          Inr \<lparr>config = cfg, readyOnce = False, readyCh = Open, peerToRemoteClient = [],
               encoder = None, onDataHandler = None, onClickHandler = None,
               commandRegistry = reg, shutdownCtx = False\<rparr>)"

definition Ready :: "('e, 'r) basicRemoteView \<Rightarrow> chan_state" where
  "Ready brv = readyCh brv"

definition Stop :: "('e, 'r) basicRemoteView \<Rightarrow> ('e, 'r) basicRemoteView" where
  "Stop brv = brv\<lparr>shutdownCtx := True\<rparr>"

definition SetOnDataHandler ::
  "('e, 'r) basicRemoteView \<Rightarrow> nat option \<Rightarrow> ('e, 'r) basicRemoteView" where
  "SetOnDataHandler brv handler = brv\<lparr>onDataHandler := handler\<rparr>"

definition SetOnClickHandler ::
  "('e, 'r) basicRemoteView \<Rightarrow> nat option \<Rightarrow> ('e, 'r) basicRemoteView" where
  "SetOnClickHandler brv handler = brv\<lparr>onClickHandler := handler\<rparr>"

text \<open>
  \<open>brv.readyOnce.Do(func() {...})\<close>: the function runs if the flag is not set, and the
  flag is set. Closing a closed channel panics.
\<close>

definition readyOnceDo ::
  "('e, 'r) basicRemoteView \<Rightarrow> ('e, 'r) basicRemoteView \<times> effect list \<times> panic option" where
  "readyOnceDo brv =
     (if readyOnce brv then (brv, [], None)
      else
        (case readyCh brv of
           Closed \<Rightarrow> (brv\<lparr>readyOnce := True\<rparr>, [ReadyChClose], Some CloseOfClosedChannel)
         | Open \<Rightarrow>
             (brv\<lparr>readyOnce := True, readyCh := Closed\<rparr>,
              [ReadyChClose, GoProcessInputFrames, GoProcessOutputFrames], None)))"

text \<open>
  The goroutine that the handler starts for a peer connection. Its \<open>select\<close> returns when
  the View is shut down first; otherwise the client is added and the once-gate is passed.
\<close>

datatype selected = CtxDone | IceConnectedDone

definition attachWorker ::
  "('e, 'r) basicRemoteView \<Rightarrow> selected \<Rightarrow> nat \<Rightarrow> remoteClient \<Rightarrow>
     ('e, 'r) basicRemoteView \<times> effect list \<times> panic option" where
  "attachWorker brv sel peerConnection rc =
     (case sel of
        CtxDone \<Rightarrow> (brv, [], None)
      | IceConnectedDone \<Rightarrow> readyOnceDo (addRemoteClient brv peerConnection rc))"

text \<open>The callback on a change of the ICE connection state (its debug log left out).\<close>

datatype ice_state =
  ICENew | ICEChecking | ICEConnected | ICECompleted | ICEDisconnected | ICEFailed | ICEClosed

definition onICEConnectionStateChange ::
  "('e, 'r) basicRemoteView \<Rightarrow> nat \<Rightarrow> ice_state \<Rightarrow> ('e, 'r) basicRemoteView" where
  "onICEConnectionStateChange brv peerConnection connectionState =
     (if connectionState = ICEConnected then brv
      else
        (case connectionState of
           ICEDisconnected \<Rightarrow> removeRemoteClient brv peerConnection
         | ICEFailed \<Rightarrow> removeRemoteClient brv peerConnection
         | ICEClosed \<Rightarrow> removeRemoteClient brv peerConnection
         | _ \<Rightarrow> brv))"

text \<open>
  What may happen to a View, one operation at a time, and the run of a sequence of such
  operations from a state of the View; a panic ends the run.
\<close>

datatype view_event =
    AttachWorker selected nat remoteClient
  | ICEConnectionStateChange nat ice_state
  | CallSetOnDataHandler "nat option"
  | CallSetOnClickHandler "nat option"
  | CallStop

fun viewStep ::
  "('e, 'r) basicRemoteView \<Rightarrow> view_event \<Rightarrow>
     ('e, 'r) basicRemoteView \<times> effect list \<times> panic option" where
  "viewStep brv (AttachWorker sel peerConnection rc) = attachWorker brv sel peerConnection rc"
| "viewStep brv (ICEConnectionStateChange peerConnection connectionState) =
     (onICEConnectionStateChange brv peerConnection connectionState, [], None)"
| "viewStep brv (CallSetOnDataHandler handler) = (SetOnDataHandler brv handler, [], None)"
| "viewStep brv (CallSetOnClickHandler handler) = (SetOnClickHandler brv handler, [], None)"
| "viewStep brv CallStop = (Stop brv, [], None)"

fun runView ::
  "('e, 'r) basicRemoteView \<Rightarrow> view_event list \<Rightarrow>
     ('e, 'r) basicRemoteView \<times> effect list \<times> panic option" where
  "runView brv [] = (brv, [], None)"
| "runView brv (ev # evs) =
     (case viewStep brv ev of
        (brv1, t1, Some p) \<Rightarrow> (brv1, t1, Some p)
      | (brv1, t1, None) \<Rightarrow>
          (case runView brv1 evs of (brv2, t2, p) \<Rightarrow> (brv2, t1 @ t2, p)))"

fun isAttach :: "view_event \<Rightarrow> bool" where
  "isAttach (AttachWorker IceConnectedDone peerConnection rc) = True"
| "isAttach _ = False"

section \<open>The side channel\<close>

record dataChannelMessage =
  IsString :: bool
  Data :: bytes

record commandResponse =
  data :: bytes
  isText :: bool

text \<open>
  \<open>if err := dataChannel.SendText(s); err != nil { brv.logger.Error(err) }\<close>, and the
  same for \<open>Send\<close>. The channel's methods return an error or nil, and the transport after
  the call.
\<close>

definition sendTextLogged ::
  "('w \<Rightarrow> nat \<Rightarrow> string \<Rightarrow> error option \<times> 'w) \<Rightarrow> 'w \<Rightarrow> nat \<Rightarrow> string \<Rightarrow> 'w \<times> effect list" where
  "sendTextLogged sendText w dc s =
     (case sendText w dc s of
        (None, w') \<Rightarrow> (w', [DataChannelSendText dc s])
      | (Some err, w') \<Rightarrow> (w', [DataChannelSendText dc s, LoggerError err]))"

definition sendLogged ::
  "('w \<Rightarrow> nat \<Rightarrow> bytes \<Rightarrow> error option \<times> 'w) \<Rightarrow> 'w \<Rightarrow> nat \<Rightarrow> bytes \<Rightarrow> 'w \<times> effect list" where
  "sendLogged send w dc d =
     (case send w dc d of
        (None, w') \<Rightarrow> (w', [DataChannelSend dc d])
      | (Some err, w') \<Rightarrow> (w', [DataChannelSend dc d, LoggerError err]))"

text \<open>
  The block guarded by \<open>brv.onDataHandler == nil\<close> in the callback of the data channel.
  \<open>UnmarshalCommand\<close> and the \<open>Process\<close> method of the command registry are passed in. The
  last component tells whether the block returned from the callback; the only path that
  does not is the one that sends a binary response, which leaves the block at its end.
\<close>

definition commandDispatch ::
  "(string \<Rightarrow> error + 'c) \<Rightarrow> ('r \<Rightarrow> 'c \<Rightarrow> error + commandResponse option) \<Rightarrow>
   ('w \<Rightarrow> nat \<Rightarrow> string \<Rightarrow> error option \<times> 'w) \<Rightarrow> ('w \<Rightarrow> nat \<Rightarrow> bytes \<Rightarrow> error option \<times> 'w) \<Rightarrow>
   ('e, 'r) basicRemoteView \<Rightarrow> 'w \<Rightarrow> nat \<Rightarrow> dataChannelMessage \<Rightarrow> 'w \<times> effect list \<times> bool" where
  "commandDispatch UnmarshalCommand Process sendText send brv w dc msg =
     (if \<not> IsString msg then (w, [], True)
      else
        (case UnmarshalCommand (Data msg) of
           Inl err \<Rightarrow>
             (case sendTextLogged sendText w dc (Error err) of
                (w', t) \<Rightarrow> (w', LoggerDebugw ''error unmarshaling command'' err # t, True))
         | Inr cmd \<Rightarrow>
             (case Process (commandRegistry brv) cmd of
                Inl err \<Rightarrow>
                  (case sendTextLogged sendText w dc (Error err) of
                     (w', t) \<Rightarrow> (w', LoggerDebugw ''error processing command'' err # t, True))
              | Inr None \<Rightarrow> (w, [], True)
              | Inr (Some resp) \<Rightarrow>
                  (if isText resp then
                     (case sendTextLogged sendText w dc (data resp) of (w', t) \<Rightarrow> (w', t, True))
                   else
                     (case sendLogged send w dc (data resp) of (w', t) \<Rightarrow> (w', t, False))))))"

text \<open>
  The callback of the data channel: the guarded block, and after it the call
  \<open>brv.onDataHandler(msg.Data)\<close>, which is the call of a nil function when no handler is
  installed.
\<close>

definition dataChannelOnMessage ::
  "(string \<Rightarrow> error + 'c) \<Rightarrow> ('r \<Rightarrow> 'c \<Rightarrow> error + commandResponse option) \<Rightarrow>
   ('w \<Rightarrow> nat \<Rightarrow> string \<Rightarrow> error option \<times> 'w) \<Rightarrow> ('w \<Rightarrow> nat \<Rightarrow> bytes \<Rightarrow> error option \<times> 'w) \<Rightarrow>
   ('e, 'r) basicRemoteView \<Rightarrow> 'w \<Rightarrow> nat \<Rightarrow> dataChannelMessage \<Rightarrow>
     'w \<times> effect list \<times> panic option" where
  "dataChannelOnMessage UnmarshalCommand Process sendText send brv w dc msg =
     (case (if onDataHandler brv = None
            then commandDispatch UnmarshalCommand Process sendText send brv w dc msg
            else (w, [], False)) of
        (w', t, True) \<Rightarrow> (w', t, None)
      | (w', t, False) \<Rightarrow>
          (case onDataHandler brv of
             None \<Rightarrow> (w', t, Some NilDereference)
           | Some handler \<Rightarrow> (w', t @ [CallOnDataHandler handler (Data msg)], None)))"

text \<open>
  Modelled from the spec: the command envelope and the \<open>Process\<close> method of the command
  registry, whose code is not among the sources. An envelope is a named request with an
  argument payload. The registry maps command names to handlers; \<open>Process\<close> looks the
  handler up by exact name match, an unknown name yields a "no such command" error, and
  the result of the handler, also its error, is returned.
\<close>

record command =
  Name :: string
  Args :: "string list"

type_synonym registry = "string \<Rightarrow> (command \<Rightarrow> error + commandResponse option) option"

definition Process :: "registry \<Rightarrow> command \<Rightarrow> error + commandResponse option" where
  "Process reg cmd =
     (case reg (Name cmd) of
        None \<Rightarrow> Inl (GoError ''no such command'')
      | Some handler \<Rightarrow> handler cmd)"

section \<open>The click channel\<close>

text \<open>
  A \<open>float64\<close> is a real number, an infinity or a NaN. \<open>int(x)\<close> discards the fraction
  (truncation toward zero); when the result is not a value of \<open>int\<close> the conversion still
  succeeds, with a value that depends on the implementation, which \<open>outOfRange\<close> gives.
\<close>

datatype float64 = Finite real | Infinity bool | NaN

definition truncToZero :: "real \<Rightarrow> int" where
  "truncToZero x = (if 0 \<le> x then \<lfloor>x\<rfloor> else \<lceil>x\<rceil>)"

definition floatToInt :: "(float64 \<Rightarrow> go_int) \<Rightarrow> float64 \<Rightarrow> go_int" where
  "floatToInt outOfRange x =
     (case x of
        Finite r \<Rightarrow>
          (if - (2 ^ 63) \<le> truncToZero r \<and> truncToZero r < 2 ^ 63
           then word_of_int (truncToZero r) else outOfRange x)
      | _ \<Rightarrow> outOfRange x)"

text \<open>
  The callback of the click channel. \<open>strings.Split\<close> and \<open>strconv.ParseFloat\<close> are
  passed in; the parser is called with the bit size 32, so that what it returns is the
  number of the text rounded to a \<open>float32\<close>.
\<close>

definition clickChannelOnMessage ::
  "(string \<Rightarrow> string \<Rightarrow> string list) \<Rightarrow> (string \<Rightarrow> nat \<Rightarrow> error + float64) \<Rightarrow>
   (float64 \<Rightarrow> go_int) \<Rightarrow> ('e, 'r) basicRemoteView \<Rightarrow> dataChannelMessage \<Rightarrow>
     effect list \<times> panic option" where
  "clickChannelOnMessage Split ParseFloat outOfRange brv msg =
     (case onClickHandler brv of
        None \<Rightarrow> ([], None)
      | Some handler \<Rightarrow>
          (let coords = Split (Data msg) '','' in
           if length coords \<noteq> 2 then ([], Some (PanicInt (int (length coords))))
           else
             (case ParseFloat (coords ! 0) 32 of
                Inl err \<Rightarrow> ([], Some (PanicError err))
              | Inr x \<Rightarrow>
                  (case ParseFloat (coords ! 1) 32 of
                     Inl err \<Rightarrow> ([], Some (PanicError err))
                   | Inr y \<Rightarrow>
                       ([CallOnClickHandler handler (floatToInt outOfRange x)
                           (floatToInt outOfRange y)], None)))))"

section \<open>The input relay\<close>

text \<open>
  Modelled from the spec: the package \<open>input\<close> is not among the sources. A raw event
  carries a type tag, and the tags of the two variants are \<open>"key"\<close> and \<open>"mouse"\<close>. The
  key and mouse events themselves are values of the types \<open>'k\<close> and \<open>'m\<close>.
\<close>

record RawEvent =
  Type :: string

definition KeyEventType :: string where
  "KeyEventType = ''key''"

definition MouseEventType :: string where
  "MouseEventType = ''mouse''"

text \<open>What the two handlers print.\<close>

datatype ('k, 'm) printed = SendingPtr 'm | SendingKey 'k

definition HandlePtr :: "'m \<Rightarrow> ('k, 'm) printed list \<times> error option" where
  "HandlePtr ev = ([SendingPtr ev], None)"

definition HandleKey :: "'k \<Rightarrow> ('k, 'm) printed list \<times> error option" where
  "HandleKey ev = ([SendingKey ev], None)"

text \<open>
  \<open>Handle\<close>, with its argument \<open>data\<close> written \<open>payload\<close>.
  \<open>json.Unmarshal(data, &v)\<close> is passed in for each of the three types: it takes the
  bytes and the value that \<open>v\<close> holds, and returns an error or nil and the value that
  \<open>v\<close> holds afterwards. The errors are dropped, as are the results of the two handlers.
\<close>

definition Handle ::
  "(bytes \<Rightarrow> RawEvent \<Rightarrow> error option \<times> RawEvent) \<Rightarrow> (bytes \<Rightarrow> 'k \<Rightarrow> error option \<times> 'k) \<Rightarrow>
   (bytes \<Rightarrow> 'm \<Rightarrow> error option \<times> 'm) \<Rightarrow> 'k \<Rightarrow> 'm \<Rightarrow> bytes \<Rightarrow> ('k, 'm) printed list" where
  "Handle unmarshalRaw unmarshalKey unmarshalMouse zeroKey zeroMouse payload =
     (let raw = snd (unmarshalRaw payload \<lparr>Type = []\<rparr>) in
      if Type raw = KeyEventType then fst (HandleKey (snd (unmarshalKey payload zeroKey)))
      else if Type raw = MouseEventType then fst (HandlePtr (snd (unmarshalMouse payload zeroMouse)))
      else [])"

section \<open>Concrete instances\<close>

text \<open>
  An encoder that yields a sample for every other image (the first, the third, ...),
  a factory that returns it, three images, transports that accept every write or refuse
  the writes to one track, and Views with one and with two attached connections.
\<close>

definition exampleFactory :: "go_int \<Rightarrow> go_int \<Rightarrow> error + nat" where
  "exampleFactory width height = Inr 0"

definition exampleEncode :: "nat \<Rightarrow> image \<Rightarrow> (error + bytes option) \<times> nat" where
  "exampleEncode n img = (if even n then Inr (Some (Pixels img)) else Inr None, Suc n)"

definition exampleConfig :: "nat remoteViewConfig" where
  "exampleConfig =
     \<lparr>StreamNumber = 0, StreamName = [], Debug = False, EncoderFactory = Some exampleFactory\<rparr>"

definition image1 :: image where
  "image1 = \<lparr>Bounds = \<lparr>minX = 0, minY = 0, maxX = 640, maxY = 480\<rparr>, Pixels = ''a''\<rparr>"

definition image2 :: image where
  "image2 = \<lparr>Bounds = \<lparr>minX = 0, minY = 0, maxX = 800, maxY = 600\<rparr>, Pixels = ''b''\<rparr>"

definition image3 :: image where
  "image3 = \<lparr>Bounds = \<lparr>minX = 0, minY = 0, maxX = 800, maxY = 600\<rparr>, Pixels = ''c''\<rparr>"

definition exampleClient :: remoteClient where
  "exampleClient = \<lparr>dataChannel = 10, videoTrack = 20\<rparr>"

definition otherClient :: remoteClient where
  "otherClient = \<lparr>dataChannel = 11, videoTrack = 21\<rparr>"

definition exampleRegistry :: registry where
  "exampleRegistry name =
     (if name = ''ping'' then Some (\<lambda>cmd. Inr (Some \<lparr>data = ''pong'', isText = False\<rparr>))
      else if name = ''fail'' then Some (\<lambda>cmd. Inl (GoError ''boom''))
      else None)"

definition exampleView :: "(nat, registry) basicRemoteView" where
  "exampleView =
     \<lparr>config = exampleConfig, readyOnce = True, readyCh = Closed,
      peerToRemoteClient = [(1, exampleClient)], encoder = None, onDataHandler = None,
      onClickHandler = None, commandRegistry = exampleRegistry, shutdownCtx = False\<rparr>"

definition twoClientView :: "(nat, registry) basicRemoteView" where
  "twoClientView = exampleView\<lparr>peerToRemoteClient := [(2, otherClient), (1, exampleClient)]\<rparr>"

definition freshView :: "(nat, registry) basicRemoteView" where
  "freshView =
     \<lparr>config = exampleConfig, readyOnce = False, readyCh = Open, peerToRemoteClient = [],
      encoder = None, onDataHandler = None, onClickHandler = None,
      commandRegistry = exampleRegistry, shutdownCtx = False\<rparr>"

definition reliableTrack :: "unit \<Rightarrow> nat \<Rightarrow> media_sample \<Rightarrow> error option \<times> unit" where
  "reliableTrack w track s = (None, w)"

definition brokenTrack :: "unit \<Rightarrow> nat \<Rightarrow> media_sample \<Rightarrow> error option \<times> unit" where
  "brokenTrack w track s = (if track = 21 then Some (GoError ''io: closed pipe'') else None, w)"

text \<open>
  An image whose bounds span the whole range of \<open>int\<close>, so that its width wraps around
  to \<open>-1\<close>.
\<close>

definition wideImage :: image where
  "wideImage =
     \<lparr>Bounds = \<lparr>minX = 0x8000000000000000, minY = 0, maxX = 0x7FFFFFFFFFFFFFFF, maxY = 1\<rparr>,
      Pixels = ''w''\<rparr>"

text \<open>
  What the fan-out loop may find: the View with two connections at every sample; the
  View stopped before the first sample is taken; a second connection attached after the
  first sample.
\<close>

definition twoClientObserved :: "nat \<Rightarrow> (nat, registry) basicRemoteView" where
  "twoClientObserved k = twoClientView"

definition stoppedObserved :: "nat \<Rightarrow> (nat, registry) basicRemoteView" where
  "stoppedObserved k = Stop exampleView"

definition joinedLaterObserved :: "nat \<Rightarrow> (nat, registry) basicRemoteView" where
  "joinedLaterObserved k = (if k = 0 then exampleView else twoClientView)"

text \<open>
  For the click channel: a View with a click handler, \<open>strings.Split\<close> for a separator
  of one character, a parser that knows four texts and returns for each the number that
  \<open>strconv.ParseFloat\<close> returns for it with the bit size 32, and the conversion of a value
  out of range as the 64-bit x86 processors do it.
\<close>

definition clickView :: "(nat, registry) basicRemoteView" where
  "clickView = exampleView\<lparr>onClickHandler := Some 7\<rparr>"

fun splitChar :: "char \<Rightarrow> string \<Rightarrow> string list" where
  "splitChar c [] = [[]]"
| "splitChar c (x # xs) =
     (if x = c then [] # splitChar c xs
      else (case splitChar c xs of [] \<Rightarrow> [[x]] | y # ys \<Rightarrow> (x # y) # ys))"

definition exampleSplit :: "string \<Rightarrow> string \<Rightarrow> string list" where
  "exampleSplit s sep = (case sep of [c] \<Rightarrow> splitChar c s | _ \<Rightarrow> [s])"

definition exampleParseFloat :: "string \<Rightarrow> nat \<Rightarrow> error + float64" where
  "exampleParseFloat s bitSize =
     (if s = ''12.5'' then Inr (Finite (25 / 2))
      else if s = ''47.9'' then Inr (Finite (6278349 / 131072))
      else if s = ''1e30'' then Inr (Finite 1000000015047466219876688855040)
      else if s = ''0'' then Inr (Finite 0)
      else Inl (GoError ''invalid syntax''))"

definition amd64OutOfRange :: "float64 \<Rightarrow> go_int" where
  "amd64OutOfRange x = 0x8000000000000000"

text \<open>
  A data channel that accepts every message, an unmarshaller that takes the text of the
  message for the name of the command, and a registry method that answers every command
  with a binary response.
\<close>

definition reliableChannel :: "unit \<Rightarrow> nat \<Rightarrow> bytes \<Rightarrow> error option \<times> unit" where
  "reliableChannel w dc d = (None, w)"

definition exampleUnmarshalCommand :: "string \<Rightarrow> error + command" where
  "exampleUnmarshalCommand s =
     (if s = [] then Inl (GoError ''unexpected end of JSON input'')
      else Inr \<lparr>Name = s, Args = []\<rparr>)"

definition binaryProcess :: "registry \<Rightarrow> command \<Rightarrow> error + commandResponse option" where
  "binaryProcess reg cmd = Inr (Some \<lparr>data = ''pong'', isText = False\<rparr>)"

text \<open>
  An unmarshaller for raw events that knows three payloads. On the payload \<open>dupPayload\<close>,
  an object that gives the tag twice, first as the text \<open>key\<close> and then as a number, it
  does what \<open>json.Unmarshal\<close> does: it stores the first tag, fails on the second, and
  returns the error with the first tag left in the value. On every other payload it
  fails and leaves the value as it was. Key and mouse events are numbers here.
\<close>

definition dupPayload :: bytes where
  \<open>dupPayload = ''{"type":"key","type":5}''\<close>

definition exampleUnmarshalRaw :: "bytes \<Rightarrow> RawEvent \<Rightarrow> error option \<times> RawEvent" where
  "exampleUnmarshalRaw payload v =
     (if payload = ''k'' then (None, \<lparr>Type = ''key''\<rparr>)
      else if payload = ''m'' then (None, \<lparr>Type = ''mouse''\<rparr>)
      else if payload = ''w'' then (None, \<lparr>Type = ''wheel''\<rparr>)
      else if payload = dupPayload
        then (Some (GoError ''json: cannot unmarshal number into Go struct field''),
              \<lparr>Type = ''key''\<rparr>)
      else (Some (GoError ''invalid character''), v))"

definition exampleUnmarshalEvent :: "bytes \<Rightarrow> nat \<Rightarrow> error option \<times> nat" where
  "exampleUnmarshalEvent payload v = (None, length payload)"


section \<open>Traces\<close>

lemma emit_trace: "fst (snd (emit pre r)) = pre @ fst (snd r)"
  by (cases r) (simp add: emit_def)

lemma emit_outcome: "snd (snd (emit pre r)) = snd (snd r)"
  by (cases r) (simp add: emit_def)

lemma factoryCalls_append: "factoryCalls (a @ b) = factoryCalls a @ factoryCalls b"
  by (induction a rule: factoryCalls.induct) simp_all

lemma outputFramesOf_append: "outputFramesOf (a @ b) = outputFramesOf a @ outputFramesOf b"
  by (induction a rule: outputFramesOf.induct) simp_all

lemma samplesReturned_append: "samplesReturned (a @ b) = samplesReturned a @ samplesReturned b"
  by (induction a rule: samplesReturned.induct) simp_all

lemma writesTo_append: "writesTo track (a @ b) = writesTo track a @ writesTo track b"
  by (induction track a rule: writesTo.induct) simp_all

lemma nonNil_append: "nonNil (xs @ ys) = nonNil xs @ nonNil ys"
  by (induction xs rule: nonNil.induct) simp_all

lemmas example_defs =
  exampleFactory_def exampleEncode_def exampleConfig_def image1_def image2_def image3_def
  exampleClient_def otherClient_def exampleView_def twoClientView_def freshView_def
  reliableTrack_def brokenTrack_def wideImage_def twoClientObserved_def
  stoppedObserved_def joinedLaterObserved_def Stop_def

lemmas pipeline_defs =
  framePipeline_def processInputFrames_def processOutputFrames_def initCodec_def emit_def
  getRemoteClients_def mediaSample_def Dx_def Dy_def

section \<open>The encode loop: nil images and the initialisation of the encoder\<close>

lemma inputLoop_nonNil:
  "inputLoop Encode brv firstFrame frames = inputLoop Encode brv firstFrame (map Some (nonNil frames))"
proof (induction frames arbitrary: brv firstFrame)
  case Nil
  show ?case by simp
next
  case (Cons frame rest)
  show ?case
  proof (cases frame)
    case None
    then show ?thesis
      using Cons.IH [of brv firstFrame] by (cases "nonNil rest") simp_all
  next
    case (Some img)
    then show ?thesis
      using Cons.IH by (simp cong: if_cong prod.case_cong sum.case_cong option.case_cong)
  qed
qed

lemma processInputFrames_nonNil:
  "processInputFrames Encode brv frames = processInputFrames Encode brv (map Some (nonNil frames))"
  unfolding processInputFrames_def
  using inputLoop_nonNil [of Encode brv True frames] by simp

lemma inputLoop_shutdown:
  "shutdownCtx brv \<Longrightarrow> inputLoop Encode brv firstFrame frames = (brv, [], Returned)"
  by (cases frames) simp_all

lemma inputLoop_later_no_init:
  "factoryCalls (fst (snd (inputLoop Encode brv False frames))) = []"
proof (induction frames arbitrary: brv)
  case Nil
  show ?case by simp
next
  case (Cons frame rest)
  show ?case
    using Cons.IH
    by (cases frame)
       (simp_all add: emit_trace factoryCalls_append split: option.splits prod.splits sum.splits)
qed

lemma inputLoop_first_init:
  "factoryCalls (fst (snd (inputLoop Encode brv True frames))) =
     (if shutdownCtx brv \<or> encoder brv \<noteq> None \<or> EncoderFactory (config brv) = None then []
      else (case nonNil frames of
              [] \<Rightarrow> []
            | img # rest \<Rightarrow> [(Dx (Bounds img), Dy (Bounds img))]))"
proof (induction frames)
  case Nil
  show ?case by simp
next
  case (Cons frame rest)
  show ?case
  proof (cases frame)
    case None
    then show ?thesis using Cons.IH by simp
  next
    case (Some img)
    then show ?thesis
      by (auto simp add: initCodec_def emit_trace factoryCalls_append inputLoop_later_no_init
          split: option.splits prod.splits sum.splits)
  qed
qed

text \<open>
  C10. A nil image received from \<open>InputFrames\<close> is skipped entirely. The encode loop does
  the same, calls and results alike, with and without the nil images: wherever a nil
  image stands in the sequence, also in front of it, leaving it out changes neither the
  calls of the encoder and of its factory, nor the samples sent on, nor the state of the
  View. So a nil image is never passed to the encoder, yields no sample, and does not
  initialise the encoder, which is sized from the first image that is not nil.
\<close>

theorem nil_image_skipped:
  "processInputFrames Encode brv (before @ None # later) =
     processInputFrames Encode brv (before @ later)
   \<and> processInputFrames Encode brv frames =
     processInputFrames Encode brv (map Some (nonNil frames))"
proof -
  have "nonNil (before @ None # later) = nonNil (before @ later)"
    by (simp add: nonNil_append)
  then have "processInputFrames Encode brv (before @ None # later) =
      processInputFrames Encode brv (before @ later)"
    using processInputFrames_nonNil [of Encode brv "before @ None # later"]
      processInputFrames_nonNil [of Encode brv "before @ later"]
    by simp
  then show ?thesis
    using processInputFrames_nonNil [of Encode brv frames] by simp
qed

theorem nil_image_skipped_witness:
  "processInputFrames exampleEncode exampleView [None, Some image1, None, Some image2] =
     processInputFrames exampleEncode exampleView [Some image1, Some image2]
   \<and> factoryCalls (fst (snd (processInputFrames exampleEncode exampleView
        [None, Some image1, None, Some image2]))) = [(640, 480)]"
proof -
  have a: "processInputFrames exampleEncode exampleView [None, Some image1, None, Some image2] =
      processInputFrames exampleEncode exampleView [Some image1, Some image2]"
    using nil_image_skipped [of exampleEncode exampleView "[]" "[]"
        "[None, Some image1, None, Some image2]"]
    by simp
  have "factoryCalls (fst (snd (processInputFrames exampleEncode exampleView
        [Some image1, Some image2]))) = [(640, 480)]"
    by (simp add: pipeline_defs example_defs)
  with a show ?thesis by simp
qed

text \<open>
  C2. Whatever images are pushed into a View, the encode loop calls the encoder factory
  at most once. It calls it exactly when the View is not shut down, has no encoder yet,
  has a factory, and some image that is not nil was pushed; the width and height of that
  one call are \<open>Dx\<close> and \<open>Dy\<close> of the bounds of the first image that is not nil, as Go
  computes them, in the wrapping arithmetic of \<open>int\<close>. No later image causes a second
  call.
\<close>

theorem encoder_initialised_once:
  "factoryCalls (fst (snd (processInputFrames Encode brv frames))) =
     (if shutdownCtx brv \<or> encoder brv \<noteq> None \<or> EncoderFactory (config brv) = None then []
      else (case nonNil frames of
              [] \<Rightarrow> []
            | img # rest \<Rightarrow> [(Dx (Bounds img), Dy (Bounds img))]))
   \<and> length (factoryCalls (fst (snd (processInputFrames Encode brv frames)))) \<le> 1"
proof -
  obtain b t oc where r: "inputLoop Encode brv True frames = (b, t, oc)"
    by (cases "inputLoop Encode brv True frames") auto
  have "factoryCalls (fst (snd (processInputFrames Encode brv frames))) = factoryCalls t"
    by (simp add: processInputFrames_def r factoryCalls_append)
  with inputLoop_first_init [of Encode brv frames] r
  have eq: "factoryCalls (fst (snd (processInputFrames Encode brv frames))) =
     (if shutdownCtx brv \<or> encoder brv \<noteq> None \<or> EncoderFactory (config brv) = None then []
      else (case nonNil frames of
              [] \<Rightarrow> []
            | img # rest \<Rightarrow> [(Dx (Bounds img), Dy (Bounds img))]))"
    by simp
  then have "length (factoryCalls (fst (snd (processInputFrames Encode brv frames)))) \<le> 1"
    by (simp split: list.splits)
  with eq show ?thesis by simp
qed

text \<open>
  The size is that of the first image, not of the later and larger ones; and for an
  image whose bounds span the whole range of \<open>int\<close> the width given to the factory is
  the wrapped difference, \<open>-1\<close>.
\<close>

theorem encoder_initialised_once_witness:
  "factoryCalls (fst (snd (processInputFrames exampleEncode exampleView
      [None, Some image1, Some image2, Some image3]))) = [(640, 480)]
   \<and> factoryCalls (fst (snd (processInputFrames exampleEncode exampleView
      [Some wideImage, Some image1]))) = [(- 1, 1)]"
  using encoder_initialised_once [of exampleEncode exampleView
      "[None, Some image1, Some image2, Some image3]"]
    encoder_initialised_once [of exampleEncode exampleView "[Some wideImage, Some image1]"]
  by (simp add: example_defs Dx_def Dy_def)

section \<open>The frame pipeline\<close>

lemma inputLoop_outputs:
  "outputFramesOf (fst (snd (inputLoop Encode brv firstFrame frames))) =
   samplesReturned (fst (snd (inputLoop Encode brv firstFrame frames)))"
proof (induction frames arbitrary: brv firstFrame)
  case Nil
  show ?case by simp
next
  case (Cons frame rest)
  show ?case
  proof (cases frame)
    case None
    then show ?thesis using Cons.IH by simp
  next
    case (Some img)
    then show ?thesis
      using Cons.IH
      by (auto simp add: initCodec_def emit_trace outputFramesOf_append samplesReturned_append
          split: option.splits prod.splits sum.splits)
  qed
qed

lemma processInputFrames_outputs:
  "outputFramesOf (fst (snd (processInputFrames Encode brv frames))) =
   samplesReturned (fst (snd (processInputFrames Encode brv frames)))"
proof -
  obtain b t oc where r: "inputLoop Encode brv True frames = (b, t, oc)"
    by (cases "inputLoop Encode brv True frames") auto
  from inputLoop_outputs [of Encode brv True frames] r
  show ?thesis
    by (simp add: processInputFrames_def outputFramesOf_append samplesReturned_append)
qed

lemma encodedImages_append: "encodedImages (a @ b) = encodedImages a @ encodedImages b"
  by (induction a rule: encodedImages.induct) simp_all

lemma inputLoop_later_encodes_all:
  "\<not> shutdownCtx brv \<Longrightarrow> encoder brv \<noteq> None \<Longrightarrow>
   encodedImages (fst (snd (inputLoop Encode brv False frames))) = nonNil frames"
proof (induction frames arbitrary: brv)
  case Nil
  show ?case by simp
next
  case (Cons frame rest)
  show ?case
  proof (cases frame)
    case None
    then show ?thesis using Cons by simp
  next
    case (Some img)
    from Cons.prems obtain enc where e: "encoder brv = Some enc" by auto
    obtain r enc' where c: "Encode enc img = (r, enc')"
      by (cases "Encode enc img") auto
    have ih: "encodedImages
          (fst (snd (inputLoop Encode (brv\<lparr>encoder := Some enc'\<rparr>) False rest))) =
        nonNil rest"
      using Cons.IH [of "brv\<lparr>encoder := Some enc'\<rparr>"] Cons.prems by simp
    show ?thesis
      using Some Cons.prems e c ih
      by (auto simp add: emit_trace encodedImages_append split: sum.splits option.splits)
  qed
qed

text \<open>
  In a running View whose factory yields an encoder, every image that is not nil is
  passed to \<open>Encode\<close>, in the order in which the images were pushed.
\<close>

lemma every_image_encoded:
  assumes "\<not> shutdownCtx brv" "encoder brv = None" "EncoderFactory (config brv) = Some new"
    and "\<forall>width height. \<exists>enc. new width height = Inr enc"
  shows "encodedImages (fst (snd (processInputFrames Encode brv frames))) = nonNil frames"
proof -
  have loop: "encodedImages (fst (snd (inputLoop Encode brv True frames))) = nonNil frames"
  proof (induction frames)
    case Nil
    show ?case by simp
  next
    case (Cons frame rest)
    show ?case
    proof (cases frame)
      case None
      then show ?thesis using Cons.IH assms(1) by simp
    next
      case (Some img)
      from assms(4) obtain enc where n: "new (Dx (Bounds img)) (Dy (Bounds img)) = Inr enc"
        by blast
      obtain r enc' where c: "Encode enc img = (r, enc')"
        by (cases "Encode enc img") auto
      have later: "encodedImages
            (fst (snd (inputLoop Encode (brv\<lparr>encoder := Some enc'\<rparr>) False rest))) =
          nonNil rest"
        using inputLoop_later_encodes_all [of "brv\<lparr>encoder := Some enc'\<rparr>" Encode rest]
          assms(1)
        by simp
      show ?thesis
        using Some assms(1-3) n c later
        by (auto simp add: initCodec_def emit_trace encodedImages_append
            split: sum.splits option.splits)
    qed
  qed
  obtain b t oc where r: "inputLoop Encode brv True frames = (b, t, oc)"
    by (cases "inputLoop Encode brv True frames") auto
  with loop show ?thesis
    by (simp add: processInputFrames_def encodedImages_append)
qed

text \<open>
  The samples that the encode loop gets from the encoder are the samples among the
  results of the encoder for the images pushed.
\<close>

lemma inputLoop_later_results:
  "\<not> shutdownCtx brv \<Longrightarrow> encoder brv = Some enc \<Longrightarrow>
   samplesReturned (fst (snd (inputLoop Encode brv False frames))) =
     nonNilSamples (encodeAll Encode enc (nonNil frames))"
proof (induction frames arbitrary: brv enc)
  case Nil
  show ?case by simp
next
  case (Cons frame rest)
  show ?case
  proof (cases frame)
    case None
    then show ?thesis using Cons by simp
  next
    case (Some img)
    obtain r enc' where c: "Encode enc img = (r, enc')"
      by (cases "Encode enc img") auto
    have ih: "samplesReturned
          (fst (snd (inputLoop Encode (brv\<lparr>encoder := Some enc'\<rparr>) False rest))) =
        nonNilSamples (encodeAll Encode enc' (nonNil rest))"
      using Cons.IH [of "brv\<lparr>encoder := Some enc'\<rparr>" enc'] Cons.prems by simp
    show ?thesis
      using Some Cons.prems c ih
      by (auto simp add: emit_trace samplesReturned_append split: sum.splits option.splits)
  qed
qed

lemma inputLoop_first_results:
  assumes "\<not> shutdownCtx brv" "encoder brv = None" "EncoderFactory (config brv) = Some new"
  shows "samplesReturned (fst (snd (inputLoop Encode brv True frames))) =
           nonNilSamples (encoderResults new Encode frames)"
proof (induction frames)
  case Nil
  show ?case by (simp add: encoderResults_def)
next
  case (Cons frame rest)
  show ?case
  proof (cases frame)
    case None
    then show ?thesis using Cons.IH assms(1) by (simp add: encoderResults_def)
  next
    case (Some img)
    show ?thesis
    proof (cases "new (Dx (Bounds img)) (Dy (Bounds img))")
      case (Inl err)
      with Some assms show ?thesis
        by (simp add: initCodec_def encoderResults_def)
    next
      case (Inr enc)
      obtain r enc' where c: "Encode enc img = (r, enc')"
        by (cases "Encode enc img") auto
      have later: "samplesReturned
            (fst (snd (inputLoop Encode (brv\<lparr>encoder := Some enc'\<rparr>) False rest))) =
          nonNilSamples (encodeAll Encode enc' (nonNil rest))"
        using inputLoop_later_results [of "brv\<lparr>encoder := Some enc'\<rparr>" enc' Encode rest]
          assms(1)
        by simp
      show ?thesis
        using Some Inr assms c later
        by (auto simp add: initCodec_def encoderResults_def emit_trace samplesReturned_append
            split: sum.splits option.splits)
    qed
  qed
qed

lemma processInputFrames_results:
  assumes "\<not> shutdownCtx brv" "encoder brv = None" "EncoderFactory (config brv) = Some new"
  shows "samplesReturned (fst (snd (processInputFrames Encode brv frames))) =
           nonNilSamples (encoderResults new Encode frames)"
proof -
  obtain b t oc where r: "inputLoop Encode brv True frames = (b, t, oc)"
    by (cases "inputLoop Encode brv True frames") auto
  from inputLoop_first_results [OF assms, of Encode frames] r
  show ?thesis
    by (simp add: processInputFrames_def samplesReturned_append)
qed

text \<open>When no write of a fan-out fails, every client of the snapshot is written to.\<close>

lemma fanOut_no_panic:
  "fanOut writeSample w rcs outputFrame = (w', t, None) \<Longrightarrow>
   t = map (\<lambda>rc. WriteSample (videoTrack rc) (mediaSample outputFrame)) rcs"
proof (induction rcs arbitrary: w t)
  case Nil
  then show ?case by simp
next
  case (Cons rc rcs)
  then show ?case
    by (auto split: prod.splits option.splits)
qed

lemma writesTo_other:
  "track \<notin> videoTrack ` set rcs \<Longrightarrow>
   writesTo track (map (\<lambda>c. WriteSample (videoTrack c) s) rcs) = []"
  by (induction rcs) auto

lemma writesTo_snapshot:
  "rc \<in> set rcs \<Longrightarrow> distinct (map videoTrack rcs) \<Longrightarrow>
   writesTo (videoTrack rc) (map (\<lambda>c. WriteSample (videoTrack c) s) rcs) = [s]"
proof (induction rcs)
  case Nil
  then show ?case by simp
next
  case (Cons c rcs)
  show ?case
  proof (cases "rc = c")
    case True
    with Cons.prems writesTo_other [of "videoTrack rc" rcs s] show ?thesis by simp
  next
    case False
    with Cons.prems have "rc \<in> set rcs" "videoTrack c \<noteq> videoTrack rc" by auto
    with Cons show ?thesis by simp
  qed
qed

lemma outputLoop_writes:
  assumes "\<forall>k. framesSent \<le> k \<and> k < framesSent + length outputFrames \<longrightarrow>
        \<not> shutdownCtx (observed k) \<and> rc \<in> set (getRemoteClients (observed k)) \<and>
        distinct (map videoTrack (getRemoteClients (observed k)))"
    and "\<forall>p. snd (snd (outputLoop writeSample observed w framesSent outputFrames isClosed)) \<noteq>
        Panicked p"
  shows "writesTo (videoTrack rc)
           (fst (snd (outputLoop writeSample observed w framesSent outputFrames isClosed))) =
         map mediaSample outputFrames"
  using assms
proof (induction outputFrames arbitrary: w framesSent)
  case Nil
  show ?case by simp
next
  case (Cons f fs)
  have "framesSent \<le> framesSent \<and> framesSent < framesSent + length (f # fs)"
    by simp
  with Cons.prems(1) have here: "\<not> shutdownCtx (observed framesSent)"
      "rc \<in> set (getRemoteClients (observed framesSent))"
      "distinct (map videoTrack (getRemoteClients (observed framesSent)))"
    by blast+
  obtain w' t p where fo: "fanOut writeSample w (getRemoteClients (observed framesSent)) f =
      (w', t, p)"
    by (cases "fanOut writeSample w (getRemoteClients (observed framesSent)) f") auto
  show ?case
  proof (cases p)
    case (Some q)
    from here(1) fo Some
    have "outputLoop writeSample observed w framesSent (f # fs) isClosed = (w', t, Panicked q)"
      by simp
    with Cons.prems(2) show ?thesis by simp
  next
    case None
    from fo None
    have "fanOut writeSample w (getRemoteClients (observed framesSent)) f = (w', t, None)"
      by simp
    then have t: "t = map (\<lambda>rc. WriteSample (videoTrack rc) (mediaSample f))
        (getRemoteClients (observed framesSent))"
      by (rule fanOut_no_panic)
    from here(1) fo None
    have step: "outputLoop writeSample observed w framesSent (f # fs) isClosed =
        emit (t @ (if Debug (config (observed framesSent))
                   then [LoggerDebugwWroteSample (framesSent + 1)] else []))
          (outputLoop writeSample observed w' (framesSent + 1) fs isClosed)"
      by simp
    have later: "\<forall>k. framesSent + 1 \<le> k \<and> k < framesSent + 1 + length fs \<longrightarrow>
        \<not> shutdownCtx (observed k) \<and> rc \<in> set (getRemoteClients (observed k)) \<and>
        distinct (map videoTrack (getRemoteClients (observed k)))"
    proof (intro allI impI)
      fix k
      assume "framesSent + 1 \<le> k \<and> k < framesSent + 1 + length fs"
      then have "framesSent \<le> k \<and> k < framesSent + length (f # fs)"
        by simp
      with Cons.prems(1)
      show "\<not> shutdownCtx (observed k) \<and> rc \<in> set (getRemoteClients (observed k)) \<and>
          distinct (map videoTrack (getRemoteClients (observed k)))"
        by blast
    qed
    have quiet: "\<forall>q. snd (snd (outputLoop writeSample observed w' (framesSent + 1) fs isClosed)) \<noteq>
        Panicked q"
      using Cons.prems(2) unfolding step by (simp add: emit_outcome)
    have ih: "writesTo (videoTrack rc)
          (fst (snd (outputLoop writeSample observed w' (framesSent + 1) fs isClosed))) =
        map mediaSample fs"
      by (rule Cons.IH [OF later quiet])
    have wt: "writesTo (videoTrack rc) t = [mediaSample f]"
      unfolding t by (rule writesTo_snapshot [OF here(2,3)])
    show ?thesis
      unfolding step using wt ih by (simp add: emit_trace writesTo_append)
  qed
qed

text \<open>
  C1, amended. Take a View that is not shut down while the images are pushed, without
  an encoder yet and with a factory, and let the fan-out loop find the View, at each
  sample it receives, not shut down and holding the connection, which has a video track
  of its own; let no \<open>WriteSample\<close> call of the run fail, that is, let the fan-out loop
  not panic. Then the samples that the encode loop gets from the encoder are the non-nil
  results of the encoder for the images pushed, and the samples written to the track of
  the connection are these samples, each with the duration of 33 milliseconds, in the
  order in which the images were pushed. So the number of \<open>WriteSample\<close> calls on the
  connection is the number of images for which the encoder returned a sample; an image
  for which it returned none, or an error, yields no call.
\<close>

theorem samples_fanned_out_in_order:
  assumes running: "\<not> shutdownCtx brv"
    and fresh: "encoder brv = None"
    and factory: "EncoderFactory (config brv) = Some new"
    and attached: "\<forall>k < length (nonNilSamples (encoderResults new Encode frames)).
        \<not> shutdownCtx (observed k) \<and> rc \<in> set (getRemoteClients (observed k)) \<and>
        distinct (map videoTrack (getRemoteClients (observed k)))"
    and no_failure: "\<forall>p.
        snd (snd (framePipeline Encode writeSample brv observed w frames)) \<noteq> Panicked p"
  shows "samplesReturned (fst (framePipeline Encode writeSample brv observed w frames)) =
           nonNilSamples (encoderResults new Encode frames)
       \<and> writesTo (videoTrack rc)
           (fst (snd (framePipeline Encode writeSample brv observed w frames))) =
           map mediaSample (nonNilSamples (encoderResults new Encode frames))
       \<and> length (writesTo (videoTrack rc)
           (fst (snd (framePipeline Encode writeSample brv observed w frames)))) =
           length (nonNilSamples (encoderResults new Encode frames))"
proof -
  obtain b tin oc where r: "processInputFrames Encode brv frames = (b, tin, oc)"
    by (cases "processInputFrames Encode brv frames") auto
  have res: "samplesReturned tin = nonNilSamples (encoderResults new Encode frames)"
    using processInputFrames_results [OF running fresh factory, of Encode frames] r by simp
  have outs: "outputFramesOf tin = nonNilSamples (encoderResults new Encode frames)"
    using processInputFrames_outputs [of Encode brv frames] r res by simp
  have pipe: "framePipeline Encode writeSample brv observed w frames =
      (tin, snd (outputLoop writeSample observed w 0
                   (nonNilSamples (encoderResults new Encode frames)) (oc \<noteq> Blocked)))"
    by (simp add: framePipeline_def processOutputFrames_def r outs)
  have a: "\<forall>k. 0 \<le> k \<and> k < 0 + length (nonNilSamples (encoderResults new Encode frames)) \<longrightarrow>
        \<not> shutdownCtx (observed k) \<and> rc \<in> set (getRemoteClients (observed k)) \<and>
        distinct (map videoTrack (getRemoteClients (observed k)))"
    using attached by simp
  have q: "\<forall>p. snd (snd (outputLoop writeSample observed w 0
        (nonNilSamples (encoderResults new Encode frames)) (oc \<noteq> Blocked))) \<noteq> Panicked p"
    using no_failure pipe by simp
  have writes: "writesTo (videoTrack rc)
           (fst (snd (framePipeline Encode writeSample brv observed w frames))) =
           map mediaSample (nonNilSamples (encoderResults new Encode frames))"
    using outputLoop_writes [OF a q] pipe by simp
  have "length (writesTo (videoTrack rc)
           (fst (snd (framePipeline Encode writeSample brv observed w frames)))) =
           length (nonNilSamples (encoderResults new Encode frames))"
    using writes by simp
  with res writes pipe show ?thesis by simp
qed

text \<open>
  Three images, of which the encoder yields a sample for the first and the third, and a
  second connection that is attached after the first sample: two writes to the first
  connection, in that order.
\<close>

theorem samples_fanned_out_in_order_witness:
  "nonNilSamples (encoderResults exampleFactory exampleEncode
      [Some image1, Some image2, Some image3]) = [''a'', ''c'']
   \<and> writesTo (videoTrack exampleClient)
       (fst (snd (framePipeline exampleEncode reliableTrack exampleView joinedLaterObserved ()
               [Some image1, Some image2, Some image3]))) =
     [\<lparr>SampleData = ''a'', Duration = 33\<rparr>, \<lparr>SampleData = ''c'', Duration = 33\<rparr>]"
proof -
  have running: "\<not> shutdownCtx exampleView"
    by (simp add: example_defs)
  have fresh: "encoder exampleView = None"
    by (simp add: example_defs)
  have factory: "EncoderFactory (config exampleView) = Some exampleFactory"
    by (simp add: exampleView_def exampleConfig_def)
  have res: "nonNilSamples (encoderResults exampleFactory exampleEncode
      [Some image1, Some image2, Some image3]) = [''a'', ''c'']"
    by (simp add: encoderResults_def exampleFactory_def exampleEncode_def image1_def image2_def
        image3_def)
  have attached: "\<forall>k < length (nonNilSamples (encoderResults exampleFactory exampleEncode
        [Some image1, Some image2, Some image3])).
      \<not> shutdownCtx (joinedLaterObserved k) \<and>
      exampleClient \<in> set (getRemoteClients (joinedLaterObserved k)) \<and>
      distinct (map videoTrack (getRemoteClients (joinedLaterObserved k)))"
    unfolding res
    by (simp add: joinedLaterObserved_def getRemoteClients_def exampleView_def twoClientView_def
        exampleClient_def otherClient_def)
  have no_failure: "\<forall>p. snd (snd (framePipeline exampleEncode reliableTrack exampleView
        joinedLaterObserved () [Some image1, Some image2, Some image3])) \<noteq> Panicked p"
    by (simp add: pipeline_defs example_defs)
  from samples_fanned_out_in_order [OF running fresh factory attached no_failure] res
  show ?thesis by (simp add: mediaSample_def)
qed

text \<open>
  The claim as it stands, without the conditions: two connections are attached, and the
  snapshot lists the other one first; the write to its track fails and aborts the
  process, and the connection observes no \<open>WriteSample\<close> call although the encoder
  returned a sample for the one image pushed.
\<close>

theorem samples_fanned_out_counterexample:
  "exampleClient \<in> set (getRemoteClients (twoClientObserved 0))
   \<and> length (samplesReturned (fst (framePipeline exampleEncode brokenTrack twoClientView
        twoClientObserved () [Some image1]))) = 1
   \<and> length (writesTo (videoTrack exampleClient)
        (fst (snd (framePipeline exampleEncode brokenTrack twoClientView twoClientObserved ()
           [Some image1])))) = 0"
  by (simp add: pipeline_defs example_defs)

text \<open>
  Likewise when the View is stopped after the encoder has returned the sample and before
  the fan-out loop takes it: the loop leaves without writing the sample.
\<close>

lemma stop_before_fanout_drops_sample:
  "samplesReturned (fst (framePipeline exampleEncode reliableTrack exampleView stoppedObserved ()
      [Some image1])) = [''a'']
   \<and> snd (framePipeline exampleEncode reliableTrack exampleView stoppedObserved ()
      [Some image1]) = ([], Returned)"
  by (simp add: pipeline_defs example_defs)

section \<open>A failing write\<close>

lemma fanOut_fail:
  "fanOut writeSample w rcs1 outputFrame = (w1, t1, None) \<Longrightarrow>
   writeSample w1 (videoTrack rc) (mediaSample outputFrame) = (Some err, w2) \<Longrightarrow>
   fanOut writeSample w (rcs1 @ rc # rcs2) outputFrame =
     (w2, t1 @ [WriteSample (videoTrack rc) (mediaSample outputFrame)], Some (PanicError err))"
proof (induction rcs1 arbitrary: w t1)
  case Nil
  then show ?case by simp
next
  case (Cons c rcs1)
  then show ?case
    by (auto split: prod.splits option.splits)
qed

lemma emit_emit: "emit a (emit b r) = emit (a @ b) r"
  by (cases r) (simp add: emit_def)

text \<open>
  A run of the fan-out loop that has sent all the samples of a list and waits for the
  next one goes on with the samples that follow.
\<close>

lemma outputLoop_append:
  "outputLoop writeSample observed w framesSent sent False = (w', t, Blocked) \<Longrightarrow>
   outputLoop writeSample observed w framesSent (sent @ later) isClosed =
     emit t (outputLoop writeSample observed w' (framesSent + length sent) later isClosed)"
proof (induction sent arbitrary: w framesSent t)
  case Nil
  then show ?case
    by (cases "outputLoop writeSample observed w framesSent later isClosed") (simp add: emit_def)
next
  case (Cons f fs)
  from Cons.prems have run: "\<not> shutdownCtx (observed framesSent)"
    by (auto split: if_splits)
  obtain w1 t1 p where fo: "fanOut writeSample w (getRemoteClients (observed framesSent)) f =
      (w1, t1, p)"
    by (cases "fanOut writeSample w (getRemoteClients (observed framesSent)) f") auto
  from Cons.prems run fo have p: "p = None"
    by (cases p) simp_all
  obtain w2 t2 oc where rest: "outputLoop writeSample observed w1 (framesSent + 1) fs False =
      (w2, t2, oc)"
    by (cases "outputLoop writeSample observed w1 (framesSent + 1) fs False") auto
  from Cons.prems run fo p rest
  have eqs: "w2 = w'" "oc = Blocked"
      "t = (t1 @ (if Debug (config (observed framesSent))
                  then [LoggerDebugwWroteSample (framesSent + 1)] else [])) @ t2"
    by (simp_all add: emit_def)
  from Cons.IH [of w1 "framesSent + 1" t2] rest eqs
  have "outputLoop writeSample observed w1 (framesSent + 1) (fs @ later) isClosed =
      emit t2 (outputLoop writeSample observed w' (framesSent + 1 + length fs) later isClosed)"
    by simp
  with run fo p eqs show ?case
    by (simp add: emit_emit)
qed

text \<open>
  C5. A \<open>WriteSample\<close> failure during fan-out is fatal, at whichever sample it happens.
  Let the fan-out loop, after any number \<open>framesSent\<close> of samples sent, take a sample
  and find the View not shut down; let the snapshot of the clients be \<open>rcs1\<close>, then \<open>rc\<close>,
  then \<open>rcs2\<close>, let the writes to \<open>rcs1\<close> succeed and the write to the track of \<open>rc\<close> fail
  with \<open>ivfErr\<close>. Then the loop panics with that error: the failing call is the last
  thing it does, nothing is logged, the connections \<open>rcs2\<close> are not written to, and the
  samples still to come are not taken. So it is for \<open>processOutputFrames\<close> when that
  sample comes after a list of samples that were all sent.
\<close>

theorem write_failure_aborts:
  assumes "\<not> shutdownCtx (observed framesSent)"
    and "getRemoteClients (observed framesSent) = rcs1 @ rc # rcs2"
    and "fanOut writeSample w rcs1 outputFrame = (w1, t1, None)"
    and "writeSample w1 (videoTrack rc) (mediaSample outputFrame) = (Some ivfErr, w2)"
  shows "outputLoop writeSample observed w framesSent (outputFrame # rest) isClosed =
           (w2, t1 @ [WriteSample (videoTrack rc) (mediaSample outputFrame)],
            Panicked (PanicError ivfErr))
       \<and> (\<forall>w0 sent tsent.
             length sent = framesSent \<and>
             processOutputFrames writeSample observed w0 sent False = (w, tsent, Blocked) \<longrightarrow>
             processOutputFrames writeSample observed w0 (sent @ outputFrame # rest) isClosed =
               (w2, tsent @ t1 @ [WriteSample (videoTrack rc) (mediaSample outputFrame)],
                Panicked (PanicError ivfErr)))"
proof -
  have here: "outputLoop writeSample observed w framesSent (outputFrame # rest) isClosed =
           (w2, t1 @ [WriteSample (videoTrack rc) (mediaSample outputFrame)],
            Panicked (PanicError ivfErr))"
    using assms fanOut_fail [of writeSample w rcs1 outputFrame w1 t1 rc ivfErr w2 rcs2]
    by simp
  have "processOutputFrames writeSample observed w0 (sent @ outputFrame # rest) isClosed =
          (w2, tsent @ t1 @ [WriteSample (videoTrack rc) (mediaSample outputFrame)],
           Panicked (PanicError ivfErr))"
    if "length sent = framesSent"
      and "processOutputFrames writeSample observed w0 sent False = (w, tsent, Blocked)"
    for w0 sent tsent
  proof -
    from that(2) have "outputLoop writeSample observed w0 0 sent False = (w, tsent, Blocked)"
      by (simp add: processOutputFrames_def)
    from outputLoop_append [OF this, of "outputFrame # rest" isClosed] that(1) here
    show ?thesis
      by (simp add: processOutputFrames_def emit_def)
  qed
  with here show ?thesis by blast
qed

text \<open>
  The first sample is written to the one connection; then a second connection is
  attached, and the write of the second sample to its track fails: the first connection
  does not get the second sample, and the third sample is not taken.
\<close>

theorem write_failure_aborts_witness:
  "\<not> shutdownCtx (joinedLaterObserved 1)
   \<and> getRemoteClients (joinedLaterObserved 1) = [] @ otherClient # [exampleClient]
   \<and> processOutputFrames brokenTrack joinedLaterObserved () ([''a''] @ ''b'' # [''c'']) False =
       ((), [WriteSample 20 \<lparr>SampleData = ''a'', Duration = 33\<rparr>,
             WriteSample 21 \<lparr>SampleData = ''b'', Duration = 33\<rparr>],
        Panicked (PanicError (GoError ''io: closed pipe'')))"
proof -
  have a: "\<not> shutdownCtx (joinedLaterObserved 1)"
    by (simp add: example_defs)
  have b: "getRemoteClients (joinedLaterObserved 1) = [] @ otherClient # [exampleClient]"
    by (simp add: getRemoteClients_def example_defs)
  have c: "fanOut brokenTrack () [] ''b'' = ((), [], None)"
    by simp
  have d: "brokenTrack () (videoTrack otherClient) (mediaSample ''b'') =
      (Some (GoError ''io: closed pipe''), ())"
    by (simp add: example_defs)
  have sent: "length [''a''] = (1::nat) \<and>
      processOutputFrames brokenTrack joinedLaterObserved () [''a''] False =
        ((), [WriteSample 20 \<lparr>SampleData = ''a'', Duration = 33\<rparr>], Blocked)"
    by (simp add: processOutputFrames_def getRemoteClients_def emit_def mediaSample_def
        example_defs)
  have e: "processOutputFrames brokenTrack joinedLaterObserved () ([''a''] @ ''b'' # [''c''])
        False =
      ((), [WriteSample 20 \<lparr>SampleData = ''a'', Duration = 33\<rparr>] @ [] @
           [WriteSample (videoTrack otherClient) (mediaSample ''b'')],
       Panicked (PanicError (GoError ''io: closed pipe'')))"
    using write_failure_aborts [where observed = joinedLaterObserved and framesSent = 1
        and writeSample = brokenTrack and rest = "[''c'']" and isClosed = False,
        OF a b c d, THEN conjunct2, rule_format, OF sent]
    by simp
  have f: "WriteSample (videoTrack otherClient) (mediaSample ''b'') =
      WriteSample 21 \<lparr>SampleData = ''b'', Duration = 33\<rparr>"
    by (simp add: mediaSample_def otherClient_def)
  from a b e f show ?thesis by simp
qed

section \<open>The registry\<close>

text \<open>
  C8. Removing a peer connection that is not in the registry is a no-op: the View after
  \<open>removeRemoteClient\<close> is the View before it, and the snapshot that
  \<open>getRemoteClients\<close> returns afterwards, for fan-out or broadcast, is the snapshot of the
  entries that were there before.
\<close>

theorem remove_absent_is_noop:
  assumes "peerConnection \<notin> fst ` set (peerToRemoteClient brv)"
  shows "removeRemoteClient brv peerConnection = brv
       \<and> getRemoteClients (removeRemoteClient brv peerConnection) = getRemoteClients brv"
  using assms by (simp add: removeRemoteClient_def)

theorem remove_absent_is_noop_witness:
  "7 \<notin> fst ` set (peerToRemoteClient twoClientView)
   \<and> removeRemoteClient twoClientView 7 = twoClientView
   \<and> getRemoteClients (removeRemoteClient twoClientView 7) = [otherClient, exampleClient]"
proof -
  have a: "7 \<notin> fst ` set (peerToRemoteClient twoClientView)"
    by (simp add: example_defs)
  have b: "getRemoteClients twoClientView = [otherClient, exampleClient]"
    by (simp add: getRemoteClients_def example_defs)
  from remove_absent_is_noop [OF a] a b show ?thesis by simp
qed

section \<open>The ready signal\<close>

lemma viewStep_fired:
  assumes "readyOnce brv" "readyCh brv = Closed"
  shows "\<exists>brv'. viewStep brv ev = (brv', [], None) \<and> readyOnce brv' \<and> readyCh brv' = Closed"
  using assms
  by (cases ev)
     (auto simp add: attachWorker_def readyOnceDo_def addRemoteClient_def removeRemoteClient_def
        onICEConnectionStateChange_def SetOnDataHandler_def SetOnClickHandler_def Stop_def
        split: selected.splits ice_state.splits)

lemma runView_fired:
  "readyOnce brv \<Longrightarrow> readyCh brv = Closed \<Longrightarrow>
   \<exists>brv'. runView brv evs = (brv', [], None) \<and> readyOnce brv' \<and> readyCh brv' = Closed"
proof (induction evs arbitrary: brv)
  case Nil
  then show ?case by simp
next
  case (Cons ev evs)
  from viewStep_fired [OF Cons.prems, of ev]
  obtain b1 where s: "viewStep brv ev = (b1, [], None)" "readyOnce b1" "readyCh b1 = Closed"
    by blast
  from Cons.IH [OF s(2,3)] s(1) show ?case by auto
qed

lemma viewStep_waiting:
  assumes "\<not> readyOnce brv" "readyCh brv = Open" "\<not> isAttach ev"
  shows "\<exists>brv'. viewStep brv ev = (brv', [], None) \<and> \<not> readyOnce brv' \<and> readyCh brv' = Open"
proof (cases ev)
  case (AttachWorker sel pc rc)
  with assms(3) have "sel = CtxDone" by (cases sel) simp_all
  with AttachWorker assms(1,2) show ?thesis by (simp add: attachWorker_def)
next
  case (ICEConnectionStateChange pc st)
  with assms(1,2) show ?thesis
    by (simp add: onICEConnectionStateChange_def removeRemoteClient_def split: ice_state.splits)
next
  case (CallSetOnDataHandler h)
  with assms(1,2) show ?thesis by (simp add: SetOnDataHandler_def)
next
  case (CallSetOnClickHandler h)
  with assms(1,2) show ?thesis by (simp add: SetOnClickHandler_def)
next
  case CallStop
  with assms(1,2) show ?thesis by (simp add: Stop_def)
qed

lemma runView_waiting:
  "\<not> readyOnce brv \<Longrightarrow> readyCh brv = Open \<Longrightarrow> \<not> list_ex isAttach evs \<Longrightarrow>
   \<exists>brv'. runView brv evs = (brv', [], None) \<and> \<not> readyOnce brv' \<and> readyCh brv' = Open"
proof (induction evs arbitrary: brv)
  case Nil
  then show ?case by simp
next
  case (Cons ev evs)
  from Cons.prems(3) have na: "\<not> isAttach ev" and rest: "\<not> list_ex isAttach evs" by simp_all
  from viewStep_waiting [OF Cons.prems(1,2) na]
  obtain b1 where s: "viewStep brv ev = (b1, [], None)" "\<not> readyOnce b1" "readyCh b1 = Open"
    by blast
  from Cons.IH [OF s(2,3) rest] s(1) show ?case by auto
qed

lemma runView_append:
  "runView brv evs1 = (b1, t1, None) \<Longrightarrow> runView b1 evs2 = (b2, t2, p) \<Longrightarrow>
   runView brv (evs1 @ evs2) = (b2, t1 @ t2, p)"
proof (induction evs1 arbitrary: brv t1)
  case Nil
  then show ?case by simp
next
  case (Cons ev evs1)
  obtain c tc pc where s: "viewStep brv ev = (c, tc, pc)"
    by (cases "viewStep brv ev") auto
  show ?case
  proof (cases pc)
    case (Some q)
    with s Cons.prems(1) show ?thesis by simp
  next
    case None
    obtain d td pd where r: "runView c evs1 = (d, td, pd)"
      by (cases "runView c evs1") auto
    from Cons.prems(1) s None r have "d = b1" "t1 = tc @ td" "pd = None" by simp_all
    with Cons.IH [of c td] r Cons.prems(2) have "runView c (evs1 @ evs2) = (b2, td @ t2, p)"
      by simp
    with s None \<open>t1 = tc @ td\<close> show ?thesis by simp
  qed
qed

lemma attach_first:
  assumes "\<not> readyOnce brv" "readyCh brv = Open"
  shows "\<exists>brv'. viewStep brv (AttachWorker IceConnectedDone pc rc) =
            (brv', [ReadyChClose, GoProcessInputFrames, GoProcessOutputFrames], None)
          \<and> readyOnce brv' \<and> readyCh brv' = Closed"
  using assms by (simp add: attachWorker_def readyOnceDo_def addRemoteClient_def)

text \<open>
  C3. Take a View as \<open>NewRemoteView\<close> returns it and any sequence of operations on it:
  attach workers, changes of the ICE state, installations of handlers, \<open>Stop\<close>. As long
  as no worker has attached a connection, the channel that \<open>Ready()\<close> returns is open and
  nothing was started. The first worker that attaches a connection closes the channel
  and starts the two loops of the pipeline; whatever follows, further attaches included,
  closes nothing and starts nothing, and the channel stays closed: in the whole run the
  channel is closed once and each loop is started once, and nothing panics.
\<close>

theorem ready_fires_once:
  assumes new: "NewRemoteView cfg reg = Inr brv0"
    and before: "\<not> list_ex isAttach before"
  shows "(\<exists>brv1. runView brv0 before = (brv1, [], None) \<and> Ready brv1 = Open) \<and>
         (\<exists>brv2. runView brv0 (before @ [AttachWorker IceConnectedDone peerConnection rc]) =
                   (brv2, [ReadyChClose, GoProcessInputFrames, GoProcessOutputFrames], None)
                 \<and> Ready brv2 = Closed) \<and>
         (\<exists>brv3. runView brv0 (before @ AttachWorker IceConnectedDone peerConnection rc # later) =
                   (brv3, [ReadyChClose, GoProcessInputFrames, GoProcessOutputFrames], None)
                 \<and> Ready brv3 = Closed)"
proof -
  from new have init: "\<not> readyOnce brv0" "readyCh brv0 = Open"
    by (auto simp add: NewRemoteView_def split: option.splits)
  from runView_waiting [OF init before]
  obtain b1 where r1: "runView brv0 before = (b1, [], None)" "\<not> readyOnce b1" "readyCh b1 = Open"
    by blast
  from attach_first [OF r1(2,3), of peerConnection rc]
  obtain b2 where r2: "viewStep b1 (AttachWorker IceConnectedDone peerConnection rc) =
       (b2, [ReadyChClose, GoProcessInputFrames, GoProcessOutputFrames], None)"
       "readyOnce b2" "readyCh b2 = Closed"
    by blast
  have after: "\<exists>brv3. runView brv0 (before @ AttachWorker IceConnectedDone peerConnection rc # evs) =
                   (brv3, [ReadyChClose, GoProcessInputFrames, GoProcessOutputFrames], None)
                 \<and> Ready brv3 = Closed" for evs
  proof -
    from runView_fired [OF r2(2,3), of evs]
    obtain b3 where r3: "runView b2 evs = (b3, [], None)" "readyOnce b3" "readyCh b3 = Closed"
      by blast
    from r2(1) r3(1) have "runView b1 (AttachWorker IceConnectedDone peerConnection rc # evs) =
         (b3, [ReadyChClose, GoProcessInputFrames, GoProcessOutputFrames], None)"
      by simp
    from runView_append [OF r1(1) this] r3 show ?thesis
      by (simp add: Ready_def)
  qed
  from r1 after [of "[]"] after [of later] show ?thesis
    by (simp add: Ready_def)
qed

theorem ready_fires_once_witness:
  "NewRemoteView exampleConfig exampleRegistry = Inr freshView
   \<and> \<not> list_ex isAttach [CallSetOnDataHandler (Some 3), AttachWorker CtxDone 5 otherClient]
   \<and> fst (snd (runView freshView
        ([CallSetOnDataHandler (Some 3), AttachWorker CtxDone 5 otherClient] @
         AttachWorker IceConnectedDone 1 exampleClient #
         [AttachWorker IceConnectedDone 2 otherClient, ICEConnectionStateChange 1 ICEClosed,
          CallStop, AttachWorker IceConnectedDone 3 exampleClient]))) =
       [ReadyChClose, GoProcessInputFrames, GoProcessOutputFrames]
   \<and> Ready (fst (runView freshView
        ([CallSetOnDataHandler (Some 3), AttachWorker CtxDone 5 otherClient] @
         AttachWorker IceConnectedDone 1 exampleClient #
         [AttachWorker IceConnectedDone 2 otherClient, ICEConnectionStateChange 1 ICEClosed,
          CallStop, AttachWorker IceConnectedDone 3 exampleClient]))) = Closed"
proof -
  have a: "NewRemoteView exampleConfig exampleRegistry = Inr freshView"
    by (simp add: NewRemoteView_def example_defs)
  have b: "\<not> list_ex isAttach [CallSetOnDataHandler (Some 3), AttachWorker CtxDone 5 otherClient]"
    by simp
  from ready_fires_once [OF a b, of 1 exampleClient
      "[AttachWorker IceConnectedDone 2 otherClient, ICEConnectionStateChange 1 ICEClosed,
        CallStop, AttachWorker IceConnectedDone 3 exampleClient]"]
  obtain brv3 where c: "runView freshView
        ([CallSetOnDataHandler (Some 3), AttachWorker CtxDone 5 otherClient] @
         AttachWorker IceConnectedDone 1 exampleClient #
         [AttachWorker IceConnectedDone 2 otherClient, ICEConnectionStateChange 1 ICEClosed,
          CallStop, AttachWorker IceConnectedDone 3 exampleClient]) =
       (brv3, [ReadyChClose, GoProcessInputFrames, GoProcessOutputFrames], None)"
      and d: "Ready brv3 = Closed"
    by blast
  from a b c d show ?thesis by simp
qed

section \<open>The side channel\<close>

lemma dataChannelOnMessage_installed:
  "onDataHandler brv = Some handler \<Longrightarrow>
   dataChannelOnMessage unmarshalCommand process sendText send brv w dc msg =
     (w, [CallOnDataHandler handler (Data msg)], None)"
  by (simp add: dataChannelOnMessage_def)

lemma dataChannelOnMessage_text_response:
  "onDataHandler brv = None \<Longrightarrow> IsString msg \<Longrightarrow> unmarshalCommand (Data msg) = Inr cmd \<Longrightarrow>
   process (commandRegistry brv) cmd = Inr (Some resp) \<Longrightarrow> isText resp \<Longrightarrow>
   dataChannelOnMessage unmarshalCommand process sendText send brv w dc msg =
     (fst (sendTextLogged sendText w dc (data resp)),
      snd (sendTextLogged sendText w dc (data resp)), None)"
  by (simp add: dataChannelOnMessage_def commandDispatch_def split: prod.splits)

text \<open>
  C4, where the code departs from it. No data handler is installed, and a text message
  carries a command to which the registry answers with a binary response. The callback
  sends the response on the data channel and then, having left the guarded block at its
  end, calls the handler, which is nil: the callback panics, whereas the message was to
  be handled by command dispatch only.
\<close>

theorem binary_response_calls_nil_handler:
  assumes "onDataHandler brv = None" and "IsString msg"
    and "unmarshalCommand (Data msg) = Inr cmd"
    and "process (commandRegistry brv) cmd = Inr (Some resp)" and "\<not> isText resp"
  shows "dataChannelOnMessage unmarshalCommand process sendText send brv w dc msg =
     (fst (sendLogged send w dc (data resp)), snd (sendLogged send w dc (data resp)),
      Some NilDereference)"
  using assms
  by (simp add: dataChannelOnMessage_def commandDispatch_def split: prod.splits)

theorem binary_response_calls_nil_handler_witness:
  "onDataHandler exampleView = None
   \<and> dataChannelOnMessage exampleUnmarshalCommand binaryProcess reliableChannel reliableChannel
       exampleView () 10 \<lparr>IsString = True, Data = ''ping''\<rparr> =
     ((), [DataChannelSend 10 ''pong''], Some NilDereference)"
proof -
  have a: "onDataHandler exampleView = None"
    by (simp add: example_defs)
  have b: "IsString \<lparr>IsString = True, Data = ''ping''\<rparr>"
    by simp
  have c: "exampleUnmarshalCommand (Data \<lparr>IsString = True, Data = ''ping''\<rparr>) =
      Inr \<lparr>Name = ''ping'', Args = []\<rparr>"
    by (simp add: exampleUnmarshalCommand_def)
  have d: "binaryProcess (commandRegistry exampleView) \<lparr>Name = ''ping'', Args = []\<rparr> =
      Inr (Some \<lparr>data = ''pong'', isText = False\<rparr>)"
    by (simp add: binaryProcess_def)
  have e: "\<not> isText \<lparr>data = ''pong'', isText = False\<rparr>"
    by simp
  from binary_response_calls_nil_handler [where unmarshalCommand = exampleUnmarshalCommand
      and process = binaryProcess and send = reliableChannel and sendText = reliableChannel
      and w = "()" and dc = 10, OF a b c d e] a
  show ?thesis by (simp add: sendLogged_def reliableChannel_def)
qed

text \<open>
  C6. No data handler is installed, and a text message is a well-formed envelope. If it
  names a command that is not in the registry, \<open>Process\<close> returns the "no such command"
  error; if the handler of the command returns an error, \<open>Process\<close> returns that error.
  In both cases the callback logs the error, sends its text on the data channel of the
  peer that sent the message, logs the error of that send if there is one, and returns:
  no response payload is sent, and nothing else is.
\<close>

theorem command_error_replied_as_text:
  assumes "onDataHandler brv = None" and "IsString msg"
    and "unmarshalCommand (Data msg) = Inr cmd"
    and "(commandRegistry brv (Name cmd) = None \<and> err = GoError ''no such command'') \<or>
         (\<exists>handler. commandRegistry brv (Name cmd) = Some handler \<and> handler cmd = Inl err)"
  shows "Process (commandRegistry brv) cmd = Inl err
       \<and> dataChannelOnMessage unmarshalCommand Process sendText send brv w dc msg =
           (snd (sendText w dc (Error err)),
            LoggerDebugw ''error processing command'' err # DataChannelSendText dc (Error err) #
              (case fst (sendText w dc (Error err)) of None \<Rightarrow> [] | Some e \<Rightarrow> [LoggerError e]),
            None)"
proof -
  from assms(4) have p: "Process (commandRegistry brv) cmd = Inl err"
    by (auto simp add: Process_def)
  obtain e w' where s: "sendText w dc (Error err) = (e, w')"
    by (cases "sendText w dc (Error err)") auto
  have "dataChannelOnMessage unmarshalCommand Process sendText send brv w dc msg =
           (snd (sendText w dc (Error err)),
            LoggerDebugw ''error processing command'' err # DataChannelSendText dc (Error err) #
              (case fst (sendText w dc (Error err)) of None \<Rightarrow> [] | Some e \<Rightarrow> [LoggerError e]),
            None)"
    using assms(1-3) p s
    by (cases e) (simp_all add: dataChannelOnMessage_def commandDispatch_def sendTextLogged_def)
  with p show ?thesis by simp
qed

theorem command_error_replied_as_text_witness:
  "dataChannelOnMessage exampleUnmarshalCommand Process reliableChannel reliableChannel
       exampleView () 10 \<lparr>IsString = True, Data = ''nope''\<rparr> =
     ((), [LoggerDebugw ''error processing command'' (GoError ''no such command''),
           DataChannelSendText 10 ''no such command''], None)
   \<and> dataChannelOnMessage exampleUnmarshalCommand Process reliableChannel reliableChannel
       exampleView () 10 \<lparr>IsString = True, Data = ''fail''\<rparr> =
     ((), [LoggerDebugw ''error processing command'' (GoError ''boom''),
           DataChannelSendText 10 ''boom''], None)"
proof -
  have a: "onDataHandler exampleView = None"
    by (simp add: example_defs)
  have c1: "exampleUnmarshalCommand (Data \<lparr>IsString = True, Data = ''nope''\<rparr>) =
      Inr \<lparr>Name = ''nope'', Args = []\<rparr>"
    by (simp add: exampleUnmarshalCommand_def)
  have d1: "(commandRegistry exampleView (Name \<lparr>Name = ''nope'', Args = []\<rparr>) = None
        \<and> GoError ''no such command'' = GoError ''no such command'') \<or>
      (\<exists>handler. commandRegistry exampleView (Name \<lparr>Name = ''nope'', Args = []\<rparr>) = Some handler
        \<and> handler \<lparr>Name = ''nope'', Args = []\<rparr> = Inl (GoError ''no such command''))"
    by (simp add: example_defs exampleRegistry_def)
  have c2: "exampleUnmarshalCommand (Data \<lparr>IsString = True, Data = ''fail''\<rparr>) =
      Inr \<lparr>Name = ''fail'', Args = []\<rparr>"
    by (simp add: exampleUnmarshalCommand_def)
  have d2: "(commandRegistry exampleView (Name \<lparr>Name = ''fail'', Args = []\<rparr>) = None
        \<and> GoError ''boom'' = GoError ''no such command'') \<or>
      (\<exists>handler. commandRegistry exampleView (Name \<lparr>Name = ''fail'', Args = []\<rparr>) = Some handler
        \<and> handler \<lparr>Name = ''fail'', Args = []\<rparr> = Inl (GoError ''boom''))"
    by (simp add: example_defs exampleRegistry_def)
  have b1: "IsString \<lparr>IsString = True, Data = ''nope''\<rparr>"
    by simp
  have b2: "IsString \<lparr>IsString = True, Data = ''fail''\<rparr>"
    by simp
  from command_error_replied_as_text [where unmarshalCommand = exampleUnmarshalCommand
      and send = reliableChannel and sendText = reliableChannel and w = "()" and dc = 10,
      OF a b1 c1 d1]
    command_error_replied_as_text [where unmarshalCommand = exampleUnmarshalCommand
      and send = reliableChannel and sendText = reliableChannel and w = "()" and dc = 10,
      OF a b2 c2 d2]
  show ?thesis by (simp add: reliableChannel_def)
qed

section \<open>The click channel\<close>

lemma floatToInt_in_range:
  assumes "- (2 ^ 63) \<le> truncToZero x" and "truncToZero x < 2 ^ 63"
  shows "sint (floatToInt outOfRange (Finite x)) = truncToZero x"
proof -
  have "signed_take_bit 63 (truncToZero x) = truncToZero x"
    using assms by (simp add: signed_take_bit_int_eq_self)
  with assms show ?thesis
    by (simp add: floatToInt_def sint_sbintrunc')
qed

text \<open>
  C7, amended. A click handler is installed, and the message splits at the comma into
  two texts which the parser takes for two finite numbers; what it returns for them are
  the numbers of the texts rounded to \<open>float32\<close>. If the truncations of both toward zero
  are values of \<open>int\<close>, the handler is invoked exactly once, with these truncations, and
  nothing else is done.
\<close>

theorem click_invokes_handler_once:
  assumes "onClickHandler brv = Some handler"
    and "Split (Data msg) '','' = [a, b]"
    and "ParseFloat a 32 = Inr (Finite x)" and "ParseFloat b 32 = Inr (Finite y)"
    and "- (2 ^ 63) \<le> truncToZero x \<and> truncToZero x < 2 ^ 63"
    and "- (2 ^ 63) \<le> truncToZero y \<and> truncToZero y < 2 ^ 63"
  shows "\<exists>xi yi. clickChannelOnMessage Split ParseFloat outOfRange brv msg =
                   ([CallOnClickHandler handler xi yi], None)
               \<and> sint xi = truncToZero x \<and> sint yi = truncToZero y"
proof -
  have run: "clickChannelOnMessage Split ParseFloat outOfRange brv msg =
      ([CallOnClickHandler handler (floatToInt outOfRange (Finite x))
          (floatToInt outOfRange (Finite y))], None)"
    using assms(1-4) by (simp add: clickChannelOnMessage_def)
  have "sint (floatToInt outOfRange (Finite x)) = truncToZero x"
    using assms(5) by (simp add: floatToInt_in_range)
  moreover have "sint (floatToInt outOfRange (Finite y)) = truncToZero y"
    using assms(6) by (simp add: floatToInt_in_range)
  ultimately show ?thesis
    using run by simp
qed

text \<open>The message \<open>12.5,47.9\<close>: the handler is invoked with 12 and 47.\<close>

theorem click_invokes_handler_once_witness:
  "truncToZero (25 / 2) = 12 \<and> truncToZero (6278349 / 131072) = 47
   \<and> clickChannelOnMessage exampleSplit exampleParseFloat amd64OutOfRange clickView
       \<lparr>IsString = True, Data = ''12.5,47.9''\<rparr> =
     ([CallOnClickHandler 7 12 47], None)"
proof -
  have h: "onClickHandler clickView = Some 7"
    by (simp add: clickView_def)
  have s: "exampleSplit (Data \<lparr>IsString = True, Data = ''12.5,47.9''\<rparr>) '','' =
      [''12.5'', ''47.9'']"
    by (simp add: exampleSplit_def)
  have px: "exampleParseFloat ''12.5'' 32 = Inr (Finite (25 / 2))"
    by (simp add: exampleParseFloat_def)
  have py: "exampleParseFloat ''47.9'' 32 = Inr (Finite (6278349 / 131072))"
    by (simp add: exampleParseFloat_def)
  have tx: "truncToZero (25 / 2) = 12"
    by (simp add: truncToZero_def)
  have ty: "truncToZero (6278349 / 131072) = 47"
    by (simp add: truncToZero_def)
  have rx: "- (2 ^ 63) \<le> truncToZero (25 / 2) \<and> truncToZero (25 / 2) < 2 ^ 63"
    unfolding tx by simp
  have ry: "- (2 ^ 63) \<le> truncToZero (6278349 / 131072) \<and>
      truncToZero (6278349 / 131072) < 2 ^ 63"
    unfolding ty by simp
  from click_invokes_handler_once [where Split = exampleSplit
      and ParseFloat = exampleParseFloat and outOfRange = amd64OutOfRange, OF h s px py rx ry]
  obtain xi yi where run: "clickChannelOnMessage exampleSplit exampleParseFloat amd64OutOfRange
        clickView \<lparr>IsString = True, Data = ''12.5,47.9''\<rparr> =
      ([CallOnClickHandler 7 xi yi], None)"
    and xi: "sint xi = truncToZero (25 / 2)" and yi: "sint yi = truncToZero (6278349 / 131072)"
    by blast
  from xi tx have "word_of_int (sint xi) = (12 :: go_int)" by simp
  then have x12: "xi = 12" by simp
  from yi ty have "word_of_int (sint yi) = (47 :: go_int)" by simp
  then have y47: "yi = 47" by simp
  from run x12 y47 tx ty show ?thesis by simp
qed

text \<open>
  The same follows for every parser that rounds the two texts to numbers between 12 and
  13 and between 47 and 48.
\<close>

lemma click_scenario_from_bounds:
  assumes "onClickHandler brv = Some handler"
    and "Split ''12.5,47.9'' '','' = [''12.5'', ''47.9'']"
    and "ParseFloat ''12.5'' 32 = Inr (Finite x)" and "12 \<le> x" and "x < 13"
    and "ParseFloat ''47.9'' 32 = Inr (Finite y)" and "47 \<le> y" and "y < 48"
  shows "clickChannelOnMessage Split ParseFloat outOfRange brv
           \<lparr>IsString = True, Data = ''12.5,47.9''\<rparr> =
         ([CallOnClickHandler handler 12 47], None)"
proof -
  have tx: "truncToZero x = 12"
    using assms(4,5) by (simp add: truncToZero_def floor_eq_iff)
  have ty: "truncToZero y = 47"
    using assms(7,8) by (simp add: truncToZero_def floor_eq_iff)
  show ?thesis
    using assms(1,2,3,6) tx ty by (simp add: clickChannelOnMessage_def floatToInt_def)
qed

text \<open>
  The claim as it stands, for every pair of numbers that can be parsed: the message
  \<open>1e30,0\<close> is such a pair, and the handler is invoked, but its first argument is not the
  truncation of the number, which is no value of \<open>int\<close>.
\<close>

theorem click_out_of_range_counterexample:
  "onClickHandler clickView = Some 7
   \<and> exampleParseFloat ''1e30'' 32 = Inr (Finite 1000000015047466219876688855040)
   \<and> clickChannelOnMessage exampleSplit exampleParseFloat amd64OutOfRange clickView
       \<lparr>IsString = True, Data = ''1e30,0''\<rparr> =
     ([CallOnClickHandler 7 0x8000000000000000 0], None)
   \<and> sint (0x8000000000000000 :: go_int) \<noteq> truncToZero 1000000015047466219876688855040"
  by (simp add: clickChannelOnMessage_def exampleSplit_def exampleParseFloat_def
      amd64OutOfRange_def clickView_def floatToInt_def truncToZero_def)

section \<open>The input relay\<close>

text \<open>
  C9, amended. \<open>Handle\<close> reads the type tag of the payload first, and drops the error of
  the parse: the tag is the one that parsing leaves in the raw event, whether or not it
  failed. If the tag is \<open>"key"\<close>, the whole payload is parsed again as a key event and
  \<open>HandleKey\<close> is called with what that leaves, which prints it; if the tag is \<open>"mouse"\<close>,
  the payload is parsed again as a mouse event and \<open>HandlePtr\<close> is called with it. With
  any other tag neither handler is called and nothing else happens; so it is for a
  payload that cannot be parsed and leaves the raw event as it was, with an empty tag.
\<close>

theorem relay_dispatch_on_type:
  "(Type (snd (unmarshalRaw payload \<lparr>Type = []\<rparr>)) = ''key'' \<longrightarrow>
      Handle unmarshalRaw unmarshalKey unmarshalMouse zeroKey zeroMouse payload =
        [SendingKey (snd (unmarshalKey payload zeroKey))]) \<and>
   (Type (snd (unmarshalRaw payload \<lparr>Type = []\<rparr>)) = ''mouse'' \<longrightarrow>
      Handle unmarshalRaw unmarshalKey unmarshalMouse zeroKey zeroMouse payload =
        [SendingPtr (snd (unmarshalMouse payload zeroMouse))]) \<and>
   (Type (snd (unmarshalRaw payload \<lparr>Type = []\<rparr>)) \<noteq> ''key'' \<and>
    Type (snd (unmarshalRaw payload \<lparr>Type = []\<rparr>)) \<noteq> ''mouse'' \<longrightarrow>
      Handle unmarshalRaw unmarshalKey unmarshalMouse zeroKey zeroMouse payload = []) \<and>
   (snd (unmarshalRaw payload \<lparr>Type = []\<rparr>) = \<lparr>Type = []\<rparr> \<longrightarrow>
      Handle unmarshalRaw unmarshalKey unmarshalMouse zeroKey zeroMouse payload = [])"
  by (simp add: Handle_def Let_def HandleKey_def HandlePtr_def KeyEventType_def
      MouseEventType_def)

theorem relay_dispatch_on_type_witness:
  "Handle exampleUnmarshalRaw exampleUnmarshalEvent exampleUnmarshalEvent 0 0 ''k'' =
     [SendingKey 1]
   \<and> Handle exampleUnmarshalRaw exampleUnmarshalEvent exampleUnmarshalEvent 0 0 ''m'' =
     [SendingPtr 1]
   \<and> Handle exampleUnmarshalRaw exampleUnmarshalEvent exampleUnmarshalEvent 0 0 ''w'' = []
   \<and> Handle exampleUnmarshalRaw exampleUnmarshalEvent exampleUnmarshalEvent 0 0 ''{'' = []"
proof -
  have k: "Type (snd (exampleUnmarshalRaw ''k'' \<lparr>Type = []\<rparr>)) = ''key''"
    by (simp add: exampleUnmarshalRaw_def)
  have m: "Type (snd (exampleUnmarshalRaw ''m'' \<lparr>Type = []\<rparr>)) = ''mouse''"
    by (simp add: exampleUnmarshalRaw_def)
  have w: "Type (snd (exampleUnmarshalRaw ''w'' \<lparr>Type = []\<rparr>)) \<noteq> ''key'' \<and>
      Type (snd (exampleUnmarshalRaw ''w'' \<lparr>Type = []\<rparr>)) \<noteq> ''mouse''"
    by (simp add: exampleUnmarshalRaw_def)
  have u: "snd (exampleUnmarshalRaw ''{'' \<lparr>Type = []\<rparr>) = \<lparr>Type = []\<rparr>"
    by (simp add: exampleUnmarshalRaw_def dupPayload_def)
  from k relay_dispatch_on_type [of exampleUnmarshalRaw "''k''" exampleUnmarshalEvent
      exampleUnmarshalEvent 0 0]
  have 1: "Handle exampleUnmarshalRaw exampleUnmarshalEvent exampleUnmarshalEvent 0 0 ''k'' =
     [SendingKey 1]"
    by (simp add: exampleUnmarshalEvent_def)
  from m relay_dispatch_on_type [of exampleUnmarshalRaw "''m''" exampleUnmarshalEvent
      exampleUnmarshalEvent 0 0]
  have 2: "Handle exampleUnmarshalRaw exampleUnmarshalEvent exampleUnmarshalEvent 0 0 ''m'' =
     [SendingPtr 1]"
    by (simp add: exampleUnmarshalEvent_def)
  from w relay_dispatch_on_type [of exampleUnmarshalRaw "''w''" exampleUnmarshalEvent
      exampleUnmarshalEvent 0 0]
  have 3: "Handle exampleUnmarshalRaw exampleUnmarshalEvent exampleUnmarshalEvent 0 0 ''w'' = []"
    by simp
  from u relay_dispatch_on_type [of exampleUnmarshalRaw "''{''" exampleUnmarshalEvent
      exampleUnmarshalEvent 0 0]
  have 4: "Handle exampleUnmarshalRaw exampleUnmarshalEvent exampleUnmarshalEvent 0 0 ''{'' = []"
    by simp
  from 1 2 3 4 show ?thesis by simp
qed

text \<open>
  The claim as it stands, with every payload that cannot be parsed among those that are
  ignored: the payload \<open>dupPayload\<close> cannot be parsed, the parse leaves the tag \<open>"key"\<close>,
  and \<open>HandleKey\<close> is called.
\<close>

theorem relay_unparseable_counterexample:
  "fst (exampleUnmarshalRaw dupPayload \<lparr>Type = []\<rparr>) \<noteq> None
   \<and> Handle exampleUnmarshalRaw exampleUnmarshalEvent exampleUnmarshalEvent 0 0 dupPayload =
     [SendingKey 23]"
  by (simp add: Handle_def Let_def HandleKey_def KeyEventType_def exampleUnmarshalRaw_def
      exampleUnmarshalEvent_def dupPayload_def)


end
